theory Spec2Isabelle
  imports Main
begin

section \<open>Socket components of circuits.net.sockets\<close>

text \<open>
  A shallow embedding of the endpoint classes of \<^verbatim>\<open>circuits/net/sockets.py\<close>:
  \<^verbatim>\<open>Client\<close> with \<^verbatim>\<open>TCPClient\<close> and \<^verbatim>\<open>UNIXClient\<close>, \<^verbatim>\<open>Server\<close>, and \<^verbatim>\<open>UDPServer\<close>.
  Every method is a function from the object's state to its new state. What the
  operating system answers to a call (\<^verbatim>\<open>send\<close>, \<^verbatim>\<open>recv\<close>, \<^verbatim>\<open>accept\<close>, \<^verbatim>\<open>connect\<close>) is an
  argument of the function that makes the call. A method \<^verbatim>\<open>_m\<close> of class \<^verbatim>\<open>K\<close> is the
  constant \<open>K_um\<close>, a public method \<^verbatim>\<open>m\<close> is \<open>K_m\<close>, and the handlers \<^verbatim>\<open>__on_write\<close> and
  \<^verbatim>\<open>_on_write\<close> are \<open>K_on_write\<close>.
\<close>

subsection \<open>Handles, payloads and error numbers\<close>

type_synonym handle = nat
type_synonym bytes = string

text \<open>
  The names imported from \<^verbatim>\<open>errno\<close>, with the values that module has on Linux. There
  \<^verbatim>\<open>EWOULDBLOCK\<close> and \<^verbatim>\<open>EAGAIN\<close> are the same number.
\<close>

definition EPERM :: int where "EPERM = 1"
definition EINTR :: int where "EINTR = 4"
definition EBADF :: int where "EBADF = 9"
definition EAGAIN :: int where "EAGAIN = 11"
definition EWOULDBLOCK :: int where "EWOULDBLOCK = 11"
definition ENOMEM :: int where "ENOMEM = 12"
definition EINVAL :: int where "EINVAL = 22"
definition ENFILE :: int where "ENFILE = 23"
definition EMFILE :: int where "EMFILE = 24"
definition EPIPE :: int where "EPIPE = 32"
definition ECONNABORTED :: int where "ECONNABORTED = 103"
definition ENOBUFS :: int where "ENOBUFS = 105"
definition EISCONN :: int where "EISCONN = 106"
definition ENOTCONN :: int where "ENOTCONN = 107"
definition EALREADY :: int where "EALREADY = 114"
definition EINPROGRESS :: int where "EINPROGRESS = 115"

subsection \<open>Events\<close>

text \<open>
  The event classes take \<^verbatim>\<open>*args\<close>; an event is its class and its argument tuple.
  An \<^verbatim>\<open>Error\<close> event carries the \<^verbatim>\<open>SocketError\<close> it reports, which is represented by
  its \<^verbatim>\<open>args[0]\<close>, the error number.
\<close>

datatype evarg =
    Sock handle
  | Data bytes
  | Errno int
  | Host string
  | Port nat
  | Addr string nat

datatype event =
    Connect "evarg list"
  | Disconnect "evarg list"
  | Connected evarg evarg
  | Disconnected
  | Read "evarg list"
  | Error "evarg list"
  | Closed

datatype exn = SSLError | SocketError int | AttributeError | ValueError | TypeError | NameError

subsection \<open>The poller\<close>

text \<open>
  Modelled from the spec: the readiness poller (\<^verbatim>\<open>circuits.core.pollers\<close>) is not part
  of the sources at hand. Its required interface is add-reader, add-writer,
  remove-writer, is-writing and discard, where discard removes all interest in a
  handle. The poller is the two interest sets and the list of the calls it received.
\<close>

datatype pcall = AddReader handle | AddWriter handle | RemoveWriter handle | Discard handle

record poller =
  readers :: "handle set"
  writers :: "handle set"
  calls :: "pcall list"

text \<open>Modelled from the spec: add-reader(owner, handle).\<close>
definition addReader :: "handle \<Rightarrow> poller \<Rightarrow> poller" where
  "addReader h p = p\<lparr>readers := insert h (readers p), calls := calls p @ [AddReader h]\<rparr>"

text \<open>Modelled from the spec: add-writer(owner, handle).\<close>
definition addWriter :: "handle \<Rightarrow> poller \<Rightarrow> poller" where
  "addWriter h p = p\<lparr>writers := insert h (writers p), calls := calls p @ [AddWriter h]\<rparr>"

text \<open>Modelled from the spec: remove-writer(handle).\<close>
definition removeWriter :: "handle \<Rightarrow> poller \<Rightarrow> poller" where
  "removeWriter h p = p\<lparr>writers := writers p - {h}, calls := calls p @ [RemoveWriter h]\<rparr>"

text \<open>Modelled from the spec: is-writing(handle), a boolean.\<close>
definition isWriting :: "poller \<Rightarrow> handle \<Rightarrow> bool" where
  "isWriting p h = (h \<in> writers p)"

text \<open>Modelled from the spec: discard(handle) removes all interest.\<close>
definition discard :: "handle \<Rightarrow> poller \<Rightarrow> poller" where
  "discard h p = p\<lparr>readers := readers p - {h}, writers := writers p - {h},
                   calls := calls p @ [Discard h]\<rparr>"

subsection \<open>What the operating system answers\<close>

text \<open>
  \<^verbatim>\<open>send\<close> (and the TLS \<^verbatim>\<open>write\<close>) returns the number of bytes it took, or raises
  \<^verbatim>\<open>SocketError\<close>; \<^verbatim>\<open>recv\<close> returns the bytes read, or raises.
\<close>

datatype send_result = Sent nat | SendErr int
datatype recv_result = Recvd bytes | RecvErr int

fun is_sent :: "send_result \<Rightarrow> bool" where
  "is_sent (Sent n) = True"
| "is_sent (SendErr e) = False"

subsection \<open>Component state shared by all endpoints\<close>

text \<open>
  \<open>poller\<close> is \<^verbatim>\<open>self._poller\<close>, which the endpoint has acquired before any of the
  methods below runs. \<open>fired\<close> lists the events given to \<^verbatim>\<open>self.fire\<close>, oldest first.
  \<open>torn\<close> lists the sockets on which the \<^verbatim>\<open>shutdown(2)\<close>/\<^verbatim>\<open>close()\<close> block of a
  \<^verbatim>\<open>_close\<close> method ran (a \<^verbatim>\<open>SocketError\<close> inside that block is swallowed by the code).
\<close>

record component =
  poller :: poller
  fired :: "event list"
  torn :: "handle list"

definition fire :: "event \<Rightarrow> 'a component_scheme \<Rightarrow> 'a component_scheme" where
  "fire e c = c\<lparr>fired := fired c @ [e]\<rparr>"

subsection \<open>Client\<close>

text \<open>
  \<open>buffer\<close> is the deque \<^verbatim>\<open>self._buffer\<close>, head first. \<open>wire\<close> is the sequence of bytes
  that \<^verbatim>\<open>send\<close> has taken so far: a \<^verbatim>\<open>send(data)\<close> that returns \<open>n\<close> has taken the
  first \<open>n\<close> bytes of \<^verbatim>\<open>data\<close>.
\<close>

record client = component +
  sock :: handle
  ssock :: "handle option"
  buffer :: "bytes list"
  closeflag :: bool
  connected :: bool
  host :: string
  port :: nat
  secure :: bool
  wire :: bytes

definition Client_uclose :: "client \<Rightarrow> client" where
  "Client_uclose c =
     (if \<not> connected c then c
      else
        let c1 = c\<lparr>poller := discard (sock c) (poller c)\<rparr>;
            c2 = c1\<lparr>buffer := [], closeflag := False, connected := False\<rparr>;
            c3 = c2\<lparr>torn := torn c2 @ [sock c2]\<rparr>
        in fire Disconnected c3)"

definition Client_close :: "client \<Rightarrow> client" where
  "Client_close c =
     (if buffer c = [] then Client_uclose c
      else if \<not> closeflag c then c\<lparr>closeflag := True\<rparr>
      else c)"

fun Client_uwrite :: "bytes \<Rightarrow> send_result \<Rightarrow> client \<Rightarrow> client" where
  "Client_uwrite data (Sent nbytes) c =
     (let c1 = c\<lparr>wire := wire c @ take nbytes data\<rparr>
      in if nbytes < length data then c1\<lparr>buffer := drop nbytes data # buffer c1\<rparr> else c1)"
| "Client_uwrite data (SendErr e) c =
     (if e = EPIPE \<or> e = ENOTCONN then Client_uclose c
      else fire (Error [Errno e]) c)"

definition Client_write :: "bytes \<Rightarrow> client \<Rightarrow> client" where
  "Client_write data c =
     (let c1 = (if \<not> isWriting (poller c) (sock c)
                then c\<lparr>poller := addWriter (sock c) (poller c)\<rparr> else c)
      in c1\<lparr>buffer := buffer c1 @ [data]\<rparr>)"

fun Client_uread :: "recv_result \<Rightarrow> client \<Rightarrow> client" where
  "Client_uread (Recvd data) c =
     (if data \<noteq> [] then fire (Read [Data data]) c else Client_close c)"
| "Client_uread (RecvErr e) c =
     (if e = EWOULDBLOCK then c
      else Client_uclose (fire (Error [Errno e]) c))"

definition Client_on_disconnect :: "client \<Rightarrow> client" where
  "Client_on_disconnect c = Client_uclose c"

definition Client_on_read :: "recv_result \<Rightarrow> client \<Rightarrow> client" where
  "Client_on_read r c = Client_uread r c"

text \<open>
  The write-ready handler. The answer \<open>r\<close> of the operating system is used by the one
  \<^verbatim>\<open>send\<close> the handler makes, when the buffer is not empty.
\<close>

definition Client_on_write :: "send_result \<Rightarrow> client \<Rightarrow> client" where
  "Client_on_write r c =
     (let c1 = (case buffer c of
                  [] \<Rightarrow> c
                | data # rest \<Rightarrow> Client_uwrite data r (c\<lparr>buffer := rest\<rparr>))
      in if buffer c1 = [] then
           (if closeflag c1 then Client_uclose c1
            else if isWriting (poller c1) (sock c1)
                 then c1\<lparr>poller := removeWriter (sock c1) (poller c1)\<rparr>
                 else c1)
         else c1)"

text \<open>
  A run of the client: the calls \<^verbatim>\<open>write(chunk)\<close> in order, and the write-ready events
  in order, each with the answer its \<^verbatim>\<open>send\<close> gets.
\<close>

definition Client_writes :: "bytes list \<Rightarrow> client \<Rightarrow> client" where
  "Client_writes chunks c = fold Client_write chunks c"

definition Client_pump :: "send_result list \<Rightarrow> client \<Rightarrow> client" where
  "Client_pump rs c = fold Client_on_write rs c"

text \<open>A client as \<^verbatim>\<open>__init__\<close> leaves it, with its poller acquired.\<close>

definition Client_init :: "handle \<Rightarrow> client" where
  "Client_init s =
     \<lparr>poller = \<lparr>readers = {}, writers = {}, calls = []\<rparr>, fired = [], torn = [],
      sock = s, ssock = None, buffer = [], closeflag = False, connected = False,
      host = ''0.0.0.0'', port = 0, secure = False, wire = []\<rparr>"

text \<open>
  What is fired at the client between the calls of a run: the public calls and the
  readiness handlers, in any order.
\<close>

datatype client_op =
    OpWrite bytes
  | OpClose
  | OpOnWrite send_result
  | OpOnRead recv_result
  | OpOnDisconnect

fun Client_step :: "client_op \<Rightarrow> client \<Rightarrow> client" where
  "Client_step (OpWrite data) c = Client_write data c"
| "Client_step OpClose c = Client_close c"
| "Client_step (OpOnWrite r) c = Client_on_write r c"
| "Client_step (OpOnRead r) c = Client_on_read r c"
| "Client_step OpOnDisconnect c = Client_on_disconnect c"

definition Client_run :: "client_op list \<Rightarrow> client \<Rightarrow> client" where
  "Client_run ops c = fold Client_step ops c"

subsection \<open>TCPClient and UNIXClient\<close>

text \<open>
  \<^verbatim>\<open>sock.connect(...)\<close> returns \<^verbatim>\<open>None\<close> or raises \<^verbatim>\<open>SocketError\<close>; \<^verbatim>\<open>sock.connect_ex(...)\<close>
  returns an error number (0 for success). The variable \<^verbatim>\<open>r\<close> of the source is
  \<^verbatim>\<open>None\<close> or a number; \<^verbatim>\<open>if r:\<close> takes a number other than 0.

  The answers of the operating system to one \<^verbatim>\<open>connect\<close> call: \<open>first\<close> is what the
  first connect call does, \<open>fresh\<close> the socket that \<^verbatim>\<open>_create_socket\<close> makes and
  \<open>retry\<close> what \<^verbatim>\<open>connect_ex\<close> returns on it (both used after \<^verbatim>\<open>EBADF\<close> or \<^verbatim>\<open>EINVAL\<close>
  only), \<open>tls\<close> the socket \<^verbatim>\<open>ssl_socket\<close> returns, \<open>None\<close> when it raises.
\<close>

datatype connect_result = ConnReturns "int option" | ConnRaises int

record connect_os =
  first :: connect_result
  fresh :: handle
  retry :: int
  tls :: "handle option"

definition truthy :: "int option \<Rightarrow> bool" where
  "truthy r = (case r of None \<Rightarrow> False | Some n \<Rightarrow> n \<noteq> 0)"

definition provisional :: "int option \<Rightarrow> bool" where
  "provisional r =
     (case r of None \<Rightarrow> False
      | Some n \<Rightarrow> n = EISCONN \<or> n = EWOULDBLOCK \<or> n = EINPROGRESS \<or> n = EALREADY)"

text \<open>
  The part the two \<^verbatim>\<open>connect\<close> methods share, from \<^verbatim>\<open>if r:\<close> on. \<open>ev\<close> is the
  \<^verbatim>\<open>Connected\<close> event of the variant. An exception leaves the state as it is where it
  is raised: the result \<open>Inl (e, c)\<close> is the exception and that state.
\<close>

definition connect_tail ::
  "int option \<Rightarrow> handle option \<Rightarrow> event \<Rightarrow> client \<Rightarrow> (exn \<times> client) + client" where
  "connect_tail r w ev c =
     (if truthy r \<and> \<not> provisional r then Inr (fire (Error [Errno (the r)]) c)
      else
        let c1 = c\<lparr>connected := True\<rparr>;
            c2 = c1\<lparr>poller := addReader (sock c1) (poller c1)\<rparr>
        in if secure c2 then
             (case w of
                None \<Rightarrow> Inl (SSLError, c2)
              | Some s \<Rightarrow> Inr (fire ev (c2\<lparr>ssock := Some s\<rparr>)))
           else Inr (fire ev c2))"

definition TCPClient_connect ::
  "string \<Rightarrow> nat \<Rightarrow> bool \<Rightarrow> connect_os \<Rightarrow> client \<Rightarrow> (exn \<times> client) + client" where
  "TCPClient_connect h p sec os c =
     (let c1 = c\<lparr>host := h, port := p, secure := sec\<rparr>;
          (c2, r) =
            (case first os of
               ConnReturns v \<Rightarrow> (c1, v)
             | ConnRaises e \<Rightarrow>
                 if e = EBADF \<or> e = EINVAL
                 then (c1\<lparr>sock := fresh os\<rparr>, Some (retry os))
                 else (c1, Some e))
      in connect_tail r (tls os) (Connected (Host h) (Port p)) c2)"

text \<open>
  \<^verbatim>\<open>UNIXClient.connect\<close> calls \<^verbatim>\<open>connect_ex\<close> at once; a \<^verbatim>\<open>SocketError\<close> it raises gives
  its number to \<^verbatim>\<open>r\<close>. \<open>hostname\<close> is what \<^verbatim>\<open>gethostname()\<close> returns. The attribute
  \<^verbatim>\<open>self.path\<close> is read nowhere and is left out.
\<close>

definition UNIXClient_connect ::
  "string \<Rightarrow> bool \<Rightarrow> string \<Rightarrow> connect_os \<Rightarrow> client \<Rightarrow> (exn \<times> client) + client" where
  "UNIXClient_connect path sec hostname os c =
     (let c1 = c\<lparr>secure := sec\<rparr>;
          r = (case first os of ConnReturns v \<Rightarrow> v | ConnRaises e \<Rightarrow> Some e)
      in connect_tail r (tls os) (Connected (Host hostname) (Host path)) c1)"

text \<open>The state a call leaves, whether it returned or raised.\<close>

definition state_of :: "(exn \<times> 's) + 's \<Rightarrow> 's" where
  "state_of x = (case x of Inl (e, s) \<Rightarrow> s | Inr s \<Rightarrow> s)"

subsection \<open>Server\<close>

text \<open>
  \<open>sock\<close> is \<^verbatim>\<open>self._sock\<close>, the listening socket, \<^verbatim>\<open>None\<close> once it is closed.
  \<open>clients\<close> and \<open>closeq\<close> are the Python lists. \<open>buffers\<close> is the
  \<^verbatim>\<open>defaultdict(deque)\<close>: reading an absent key gives the empty deque, so the table is
  a total function that is \<open>[]\<close> where no key is stored, and \<^verbatim>\<open>del\<close> of a key makes it
  \<open>[]\<close> there. \<open>wires\<close> is, per socket, the bytes \<^verbatim>\<open>send\<close> has taken.
\<close>

record server = component +
  sock :: "handle option"
  closeq :: "handle list"
  clients :: "handle list"
  buffers :: "handle \<Rightarrow> bytes list"
  secure :: bool
  wires :: "handle \<Rightarrow> bytes"

fun Server_uclose :: "handle option \<Rightarrow> server \<Rightarrow> server" where
  "Server_uclose None s = s"
| "Server_uclose (Some h) s =
     (if Some h \<noteq> sock s \<and> h \<notin> set (clients s) then s
      else
        let s1 = s\<lparr>poller := discard h (poller s)\<rparr>;
            s2 = s1\<lparr>buffers := (buffers s1)(h := [])\<rparr>;
            s3 = (if h \<in> set (clients s2)
                  then s2\<lparr>clients := remove1 h (clients s2)\<rparr>
                  else s2\<lparr>sock := None\<rparr>);
            s4 = s3\<lparr>torn := torn s3 @ [h]\<rparr>
        in fire (Disconnect [Sock h]) s4)"

text \<open>
  The body of the loop of \<^verbatim>\<open>Server.close\<close>. For \<^verbatim>\<open>None\<close> (the listening socket once
  closed) the buffer is the empty default, as \<^verbatim>\<open>write\<close> is given sockets only.
\<close>

fun Server_close_one :: "handle option \<Rightarrow> server \<Rightarrow> server" where
  "Server_close_one None s = Server_uclose None s"
| "Server_close_one (Some h) s =
     (if buffers s h = [] then Server_uclose (Some h) s
      else if h \<notin> set (closeq s) then s\<lparr>closeq := closeq s @ [h]\<rparr>
      else s)"

definition Server_close :: "handle option \<Rightarrow> server \<Rightarrow> server" where
  "Server_close arg s =
     (let closed = (arg = None);
          socks = (case arg of
                     None \<Rightarrow> sock s # map Some (clients s)
                   | Some h \<Rightarrow> [Some h]);
          s1 = fold Server_close_one socks s
      in if closed then fire Closed s1 else s1)"

definition Server_uread :: "handle \<Rightarrow> recv_result \<Rightarrow> server \<Rightarrow> server" where
  "Server_uread h r s =
     (if h \<notin> set (clients s) then s
      else case r of
        Recvd data \<Rightarrow>
          if data \<noteq> [] then fire (Read [Sock h, Data data]) s
          else Server_close (Some h) s
      | RecvErr e \<Rightarrow>
          if e = EWOULDBLOCK then s
          else Server_uclose (Some h) (fire (Error [Sock h, Errno e]) s))"

definition Server_uwrite :: "handle \<Rightarrow> bytes \<Rightarrow> send_result \<Rightarrow> server \<Rightarrow> server" where
  "Server_uwrite h data r s =
     (if h \<notin> set (clients s) then s
      else case r of
        Sent nbytes \<Rightarrow>
          let s1 = s\<lparr>wires := (wires s)(h := wires s h @ take nbytes data)\<rparr>
          in if nbytes < length data
             then s1\<lparr>buffers := (buffers s1)(h := drop nbytes data # buffers s1 h)\<rparr>
             else s1
      | SendErr e \<Rightarrow>
          if \<not> (e = EINTR \<or> e = EWOULDBLOCK \<or> e = ENOBUFS)
          then Server_uclose (Some h) (fire (Error [Sock h, Errno e]) s)
          else s\<lparr>buffers := (buffers s)(h := data # buffers s h)\<rparr>)"

definition Server_write :: "handle \<Rightarrow> bytes \<Rightarrow> server \<Rightarrow> server" where
  "Server_write h data s =
     (let s1 = (if \<not> isWriting (poller s) h
                then s\<lparr>poller := addWriter h (poller s)\<rparr> else s)
      in s1\<lparr>buffers := (buffers s1)(h := buffers s1 h @ [data])\<rparr>)"

definition Server_broadcast :: "bytes \<Rightarrow> server \<Rightarrow> server" where
  "Server_broadcast data s = fold (\<lambda>h. Server_write h data) (clients s) s"

text \<open>
  \<^verbatim>\<open>accept()\<close> returns the new socket and the peer's address (the arguments that
  \<^verbatim>\<open>*host\<close> gives to the event), or raises \<^verbatim>\<open>SocketError\<close>. \<open>has_ssl\<close> is the module's
  \<^verbatim>\<open>HAS_SSL\<close>; \<open>w\<close> is the socket \<^verbatim>\<open>ssl_socket\<close> returns, \<open>None\<close> when it raises
  \<^verbatim>\<open>SSLError\<close>. With no listening socket left, \<^verbatim>\<open>self._sock.accept\<close> is an attribute
  of \<^verbatim>\<open>None\<close>. Where the import of \<^verbatim>\<open>ssl\<close> failed (\<^verbatim>\<open>HAS_SSL\<close> is 0) the name
  \<^verbatim>\<open>SSLError\<close> is unbound, and matching an exception of \<^verbatim>\<open>accept\<close> against the first
  \<^verbatim>\<open>except\<close> clause raises \<^verbatim>\<open>NameError\<close>.
\<close>

datatype accept_result = Accepted handle "evarg list" | AcceptErr int

definition Server_uaccept ::
  "bool \<Rightarrow> accept_result \<Rightarrow> handle option \<Rightarrow> server \<Rightarrow> (exn \<times> server) + server" where
  "Server_uaccept has_ssl a w s =
     (case sock s of
        None \<Rightarrow> Inl (AttributeError, s)
      | Some l \<Rightarrow>
         (case a of
            AcceptErr e \<Rightarrow>
              if \<not> has_ssl then Inl (NameError, s)
              else if e = EWOULDBLOCK \<or> e = EAGAIN then Inr s
              else if e = EPERM then Inr s
              else if e = EMFILE \<or> e = ENOBUFS \<or> e = ENFILE \<or> e = ENOMEM \<or> e = ECONNABORTED
              then Inr s
              else Inl (SocketError e, s)
          | Accepted newsock peer \<Rightarrow>
             (case (if secure s \<and> has_ssl then w else Some newsock) of
                None \<Rightarrow> Inl (SSLError, s)
              | Some n \<Rightarrow>
                  let s1 = s\<lparr>poller := addReader n (poller s)\<rparr>;
                      s2 = s1\<lparr>clients := clients s1 @ [n]\<rparr>
                  in Inr (fire (Connect (Sock n # peer)) s2))))"

definition Server_on_disconnect :: "handle \<Rightarrow> server \<Rightarrow> server" where
  "Server_on_disconnect h s = Server_uclose (Some h) s"

definition Server_on_read ::
  "handle \<Rightarrow> bool \<Rightarrow> accept_result \<Rightarrow> handle option \<Rightarrow> recv_result \<Rightarrow> server
     \<Rightarrow> (exn \<times> server) + server" where
  "Server_on_read h has_ssl a w r s =
     (if Some h = sock s then Server_uaccept has_ssl a w s
      else Inr (Server_uread h r s))"

definition Server_on_write :: "handle \<Rightarrow> send_result \<Rightarrow> server \<Rightarrow> server" where
  "Server_on_write h r s =
     (let s1 = (case buffers s h of
                  [] \<Rightarrow> s
                | data # rest \<Rightarrow> Server_uwrite h data r (s\<lparr>buffers := (buffers s)(h := rest)\<rparr>))
      in if buffers s1 h = [] then
           (if h \<in> set (closeq s1)
            then Server_uclose (Some h) (s1\<lparr>closeq := remove1 h (closeq s1)\<rparr>)
            else if isWriting (poller s1) h
                 then s1\<lparr>poller := removeWriter h (poller s1)\<rparr>
                 else s1)
         else s1)"

definition Server_writes :: "handle \<Rightarrow> bytes list \<Rightarrow> server \<Rightarrow> server" where
  "Server_writes h chunks s = fold (Server_write h) chunks s"

definition Server_pump :: "handle \<Rightarrow> send_result list \<Rightarrow> server \<Rightarrow> server" where
  "Server_pump h rs s = fold (Server_on_write h) rs s"

text \<open>A server as \<^verbatim>\<open>__init__\<close> leaves it, listening on \<open>l\<close>, with its poller acquired.\<close>

definition Server_init :: "handle \<Rightarrow> server" where
  "Server_init l =
     \<lparr>poller = \<lparr>readers = {l}, writers = {}, calls = [AddReader l]\<rparr>, fired = [], torn = [],
      sock = Some l, closeq = [], clients = [], buffers = (\<lambda>h. []), secure = False,
      wires = (\<lambda>h. [])\<rparr>"


subsection \<open>Answers of the operating system that lose no data\<close>

text \<open>
  \<open>full_sends\<close> are the answers of a \<^verbatim>\<open>send\<close> that takes every chunk whole. \<open>ok_send\<close>
  holds of the answers after which \<^verbatim>\<open>Server._write\<close> keeps the connection: bytes taken,
  or one of the three errors it retries.
\<close>

definition full_sends :: "bytes list \<Rightarrow> send_result list" where
  "full_sends ds = map (\<lambda>d. Sent (length d)) ds"

fun ok_send :: "send_result \<Rightarrow> bool" where
  "ok_send (Sent n) = True"
| "ok_send (SendErr e) = (e = EINTR \<or> e = EWOULDBLOCK \<or> e = ENOBUFS)"

text \<open>An accepted socket, or one with nothing buffered.\<close>

definition held :: "handle \<Rightarrow> server \<Rightarrow> bool" where
  "held h s = (h \<in> set (clients s) \<or> buffers s h = [])"

subsection \<open>UDPServer\<close>

text \<open>
  \<^verbatim>\<open>UDPServer\<close> overrides \<^verbatim>\<open>_close\<close>, \<^verbatim>\<open>close\<close>, \<^verbatim>\<open>_read\<close>, \<^verbatim>\<open>_write\<close>, \<^verbatim>\<open>write\<close>, \<^verbatim>\<open>broadcast\<close> and
  the handlers, and never assigns \<^verbatim>\<open>self._sock\<close>. An entry of its deque is the tuple
  \<^verbatim>\<open>(address, data)\<close> that \<^verbatim>\<open>write\<close> appends, or the bare bytes \<^verbatim>\<open>data[bytes:]\<close> that
  \<^verbatim>\<open>_write\<close> puts back after a short \<^verbatim>\<open>sendto\<close>. \<open>sent\<close> lists the datagrams \<^verbatim>\<open>sendto\<close>
  has taken, with their addresses.
\<close>

type_synonym address = "string \<times> nat"

datatype uentry = Pair address bytes | Raw bytes

datatype recvfrom_result = RecvdFrom bytes address | RecvFromErr int

record udp = component +
  sock :: handle
  closeq :: "handle list"
  buffers :: "handle \<Rightarrow> uentry list"
  sent :: "(address \<times> bytes) list"

definition UDPServer_uclose :: "handle \<Rightarrow> udp \<Rightarrow> udp" where
  "UDPServer_uclose h u =
     (let u1 = u\<lparr>poller := discard h (poller u)\<rparr>;
          u2 = u1\<lparr>buffers := (buffers u1)(h := [])\<rparr>;
          u3 = u2\<lparr>torn := torn u2 @ [h]\<rparr>
      in fire (Disconnect [Sock h]) u3)"

definition UDPServer_close :: "udp \<Rightarrow> udp" where
  "UDPServer_close u =
     (let u1 = fire Closed u
      in if buffers u1 (sock u1) \<noteq> [] \<and> sock u1 \<notin> set (closeq u1)
         then u1\<lparr>closeq := closeq u1 @ [sock u1]\<rparr>
         else UDPServer_uclose (sock u1) u1)"

definition UDPServer_uread :: "recvfrom_result \<Rightarrow> udp \<Rightarrow> udp" where
  "UDPServer_uread r u =
     (case r of
        RecvdFrom data a \<Rightarrow>
          if data \<noteq> [] then fire (Read [Addr (fst a) (snd a), Data data]) u else u
      | RecvFromErr e \<Rightarrow>
          if e = EWOULDBLOCK \<or> e = EAGAIN then u
          else UDPServer_uclose (sock u) (fire (Error [Sock (sock u), Errno e]) u))"

definition UDPServer_uwrite :: "address \<Rightarrow> bytes \<Rightarrow> send_result \<Rightarrow> udp \<Rightarrow> udp" where
  "UDPServer_uwrite a data r u =
     (case r of
        Sent n \<Rightarrow>
          let u1 = u\<lparr>sent := sent u @ [(a, take n data)]\<rparr>
          in if n < length data
             then u1\<lparr>buffers := (buffers u1)(sock u1 := Raw (drop n data) # buffers u1 (sock u1))\<rparr>
             else u1
      | SendErr e \<Rightarrow>
          if e = EPIPE \<or> e = ENOTCONN then UDPServer_uclose (sock u) u
          else fire (Error [Sock (sock u), Errno e]) u)"

definition UDPServer_write :: "address \<Rightarrow> bytes \<Rightarrow> udp \<Rightarrow> udp" where
  "UDPServer_write a data u =
     (let u1 = (if \<not> isWriting (poller u) (sock u)
                then u\<lparr>poller := addWriter (sock u) (poller u)\<rparr> else u)
      in u1\<lparr>buffers := (buffers u1)(sock u1 := buffers u1 (sock u1) @ [Pair a data])\<rparr>)"

definition UDPServer_broadcast :: "bytes \<Rightarrow> nat \<Rightarrow> udp \<Rightarrow> udp" where
  "UDPServer_broadcast data p u = UDPServer_write (''<broadcast>'', p) data u"

text \<open>The second half of the write-ready handler, from \<^verbatim>\<open>if not self._buffers[self._sock]\<close>.\<close>

definition UDPServer_drained :: "udp \<Rightarrow> udp" where
  "UDPServer_drained u =
     (if buffers u (sock u) = [] then
        (if sock u \<in> set (closeq u)
         then UDPServer_uclose (sock u) (u\<lparr>closeq := remove1 (sock u) (closeq u)\<rparr>)
         else if isWriting (poller u) (sock u)
              then u\<lparr>poller := removeWriter (sock u) (poller u)\<rparr>
              else u)
      else u)"

text \<open>
  \<^verbatim>\<open>address, data = popleft()\<close> unpacks a tuple. On bare bytes it raises \<^verbatim>\<open>ValueError\<close>,
  unless they are two bytes long: then both names are bound to one byte each and
  \<^verbatim>\<open>sendto\<close> raises \<^verbatim>\<open>TypeError\<close> for the address.
\<close>

definition UDPServer_on_write :: "send_result \<Rightarrow> udp \<Rightarrow> (exn \<times> udp) + udp" where
  "UDPServer_on_write r u =
     (case buffers u (sock u) of
        [] \<Rightarrow> Inr (UDPServer_drained u)
      | e # rest \<Rightarrow>
          let u1 = u\<lparr>buffers := (buffers u)(sock u := rest)\<rparr>
          in (case e of
                Pair a data \<Rightarrow> Inr (UDPServer_drained (UDPServer_uwrite a data r u1))
              | Raw b \<Rightarrow> Inl (if length b = 2 then TypeError else ValueError, u1)))"

fun UDPServer_pump :: "send_result list \<Rightarrow> udp \<Rightarrow> (exn \<times> udp) + udp" where
  "UDPServer_pump [] u = Inr u"
| "UDPServer_pump (r # rs) u =
     (case UDPServer_on_write r u of
        Inl x \<Rightarrow> Inl x
      | Inr u1 \<Rightarrow> UDPServer_pump rs u1)"

text \<open>A UDP endpoint as \<^verbatim>\<open>__init__\<close> leaves it, with its poller acquired.\<close>

definition UDPServer_init :: "handle \<Rightarrow> udp" where
  "UDPServer_init l =
     \<lparr>poller = \<lparr>readers = {l}, writers = {}, calls = [AddReader l]\<rparr>, fired = [], torn = [],
      sock = l, closeq = [], buffers = (\<lambda>h. []), sent = []\<rparr>"


subsection \<open>A client that is closing\<close>



subsection \<open>Write interest and the buffer\<close>

text \<open>
  \<open>client_inv\<close>: the poller watches the client's socket for writing exactly when the
  buffer is non-empty, and a set close flag comes with a set \<^verbatim>\<open>_connected\<close> flag.
  \<open>tracked\<close>: the socket is the listening socket or one of the accepted ones (the test
  of \<^verbatim>\<open>Server._close\<close>). \<open>server_inv k\<close>: the same for the socket \<open>k\<close> of a server, where a
  socket waits in \<^verbatim>\<open>_closeq\<close> only while it is tracked and has data pending, and
  \<^verbatim>\<open>_closeq\<close> holds no socket twice.
\<close>

definition client_inv :: "client \<Rightarrow> bool" where
  "client_inv c =
     ((isWriting (poller c) (client.sock c) \<longleftrightarrow> buffer c \<noteq> [])
      \<and> (closeflag c \<longrightarrow> connected c))"

definition tracked :: "handle \<Rightarrow> server \<Rightarrow> bool" where
  "tracked h s = (server.sock s = Some h \<or> h \<in> set (clients s))"

definition server_inv :: "handle \<Rightarrow> server \<Rightarrow> bool" where
  "server_inv k s =
     ((isWriting (poller s) k \<longleftrightarrow> server.buffers s k \<noteq> [])
      \<and> (k \<in> set (server.closeq s) \<longrightarrow> tracked k s \<and> server.buffers s k \<noteq> [])
      \<and> distinct (server.closeq s))"

subsection \<open>Connecting: the classes of error numbers\<close>

text \<open>\<open>is_Connected\<close> holds of the \<^verbatim>\<open>Connected\<close> events.\<close>

fun is_Connected :: "event \<Rightarrow> bool" where
  "is_Connected (Connected a b) = True"
| "is_Connected ev = False"

text \<open>
  The error numbers after which \<^verbatim>\<open>connect\<close> goes on as if connected, the tuple
  \<^verbatim>\<open>(EISCONN, EWOULDBLOCK, EINPROGRESS, EALREADY)\<close> of both \<^verbatim>\<open>connect\<close> methods.
\<close>

definition in_progress :: "int \<Rightarrow> bool" where
  "in_progress e = (e = EISCONN \<or> e = EWOULDBLOCK \<or> e = EINPROGRESS \<or> e = EALREADY)"

subsection \<open>Well-formed servers\<close>

text \<open>
  The accepted sockets are distinct objects, and none of them is the listening socket.
\<close>

definition wf_server :: "server \<Rightarrow> bool" where
  "wf_server s =
     (distinct (clients s)
      \<and> (case server.sock s of None \<Rightarrow> True | Some l \<Rightarrow> l \<notin> set (clients s)))"

subsection \<open>Datagrams\<close>

text \<open>
  The deque entries that \<^verbatim>\<open>write\<close> makes of a list of datagrams, and the answers of a
  \<^verbatim>\<open>sendto\<close> that takes each of them whole.
\<close>

definition entries :: "(address \<times> bytes) list \<Rightarrow> uentry list" where
  "entries ps = map (\<lambda>(a, d). Pair a d) ps"

definition whole_sends :: "(address \<times> bytes) list \<Rightarrow> send_result list" where
  "whole_sends ps = map (\<lambda>(a, d). Sent (length d)) ps"

section \<open>Properties\<close>

lemmas errno_defs =
  EPERM_def EINTR_def EBADF_def EAGAIN_def EWOULDBLOCK_def ENOMEM_def EINVAL_def
  ENFILE_def EMFILE_def EPIPE_def ECONNABORTED_def ENOBUFS_def EISCONN_def
  ENOTCONN_def EALREADY_def EINPROGRESS_def

subsection \<open>The client's write pump\<close>

lemma Client_uclose_wire: "client.wire (Client_uclose c) = client.wire c"
  by (simp add: Client_uclose_def fire_def Let_def)

lemma Client_uclose_buffer_concat:
  "buffer c = [] \<Longrightarrow> buffer (Client_uclose c) = []"
  by (simp add: Client_uclose_def fire_def Let_def)

lemma Client_write_stream:
  "client.wire (Client_write d c) @ concat (buffer (Client_write d c))
     = client.wire c @ concat (buffer c) @ d"
  by (simp add: Client_write_def Let_def)

lemma Client_writes_stream:
  "client.wire (Client_writes ds c) @ concat (buffer (Client_writes ds c))
     = client.wire c @ concat (buffer c) @ concat ds"
  unfolding Client_writes_def
proof (induction ds arbitrary: c)
  case Nil
  show ?case by simp
next
  case (Cons d ds)
  have "client.wire (fold Client_write ds (Client_write d c))
          @ concat (buffer (fold Client_write ds (Client_write d c)))
        = client.wire (Client_write d c) @ concat (buffer (Client_write d c)) @ concat ds"
    by (rule Cons.IH)
  also have "\<dots> = (client.wire c @ concat (buffer c) @ d) @ concat ds"
    using Client_write_stream [of d c] by simp
  finally show ?case by simp
qed

lemma Client_on_write_stream:
  "client.wire (Client_on_write (Sent n) c) @ concat (buffer (Client_on_write (Sent n) c))
     = client.wire c @ concat (buffer c)"
proof (cases "buffer c")
  case Nil
  then show ?thesis
    by (simp add: Client_on_write_def Let_def Client_uclose_wire Client_uclose_buffer_concat)
next
  case (Cons d rest)
  then show ?thesis
    by (simp add: Client_on_write_def Let_def Client_uclose_wire Client_uclose_buffer_concat)
qed

lemma Client_pump_stream:
  "list_all is_sent rs \<Longrightarrow>
   client.wire (Client_pump rs c) @ concat (buffer (Client_pump rs c)) = client.wire c @ concat (buffer c)"
  unfolding Client_pump_def
proof (induction rs arbitrary: c)
  case Nil
  show ?case by simp
next
  case (Cons r rs)
  from Cons.prems obtain n where r: "r = Sent n" and rest: "list_all is_sent rs"
    by (cases r) auto
  have "client.wire (fold Client_on_write rs (Client_on_write r c))
          @ concat (buffer (fold Client_on_write rs (Client_on_write r c)))
        = client.wire (Client_on_write r c) @ concat (buffer (Client_on_write r c))"
    by (rule Cons.IH [OF rest])
  then show ?case
    using Client_on_write_stream [of n c] r by simp
qed

lemma Client_on_write_short:
  "buffer c = d # rest \<Longrightarrow> n < length d \<Longrightarrow>
   buffer (Client_on_write (Sent n) c) = drop n d # rest \<and>
   client.wire (Client_on_write (Sent n) c) = client.wire c @ take n d"
  by (simp add: Client_on_write_def Let_def)

lemma Client_on_write_full_buffer:
  "buffer c = d # rest \<Longrightarrow> buffer (Client_on_write (Sent (length d)) c) = rest"
  by (simp add: Client_on_write_def Let_def Client_uclose_def fire_def)

lemma Client_pump_full: "buffer (Client_pump (full_sends (buffer c)) c) = []"
proof (induction "buffer c" arbitrary: c)
  case Nil
  then show ?case by (simp add: Client_pump_def full_sends_def)
next
  case (Cons d rest)
  have b: "buffer c = d # rest" using Cons.hyps(2) by simp
  have "buffer (Client_on_write (Sent (length d)) c) = rest"
    using Client_on_write_full_buffer [OF b] .
  then have "buffer (Client_pump (full_sends rest) (Client_on_write (Sent (length d)) c)) = []"
    using Cons.hyps(1) [of "Client_on_write (Sent (length d)) c"] by simp
  then show ?case using b by (simp add: Client_pump_def full_sends_def)
qed

lemma Client_writes_buffer: "buffer (Client_writes ds c) = buffer c @ ds"
  unfolding Client_writes_def
  by (induction ds arbitrary: c) (simp_all add: Client_write_def Let_def)

subsection \<open>The server's write pump\<close>

lemma Server_write_stream:
  "wires (Server_write h d s) h @ concat (server.buffers (Server_write h d s) h)
     = wires s h @ concat (server.buffers s h) @ d"
  by (simp add: Server_write_def Let_def)

lemma Server_write_clients: "clients (Server_write h d s) = clients s"
  by (simp add: Server_write_def Let_def)

lemma Server_writes_stream:
  "wires (Server_writes h ds s) h @ concat (server.buffers (Server_writes h ds s) h)
     = wires s h @ concat (server.buffers s h) @ concat ds"
  unfolding Server_writes_def
proof (induction ds arbitrary: s)
  case Nil
  show ?case by simp
next
  case (Cons d ds)
  show ?case
    using Cons.IH [of "Server_write h d s"] Server_write_stream [of h d s] by simp
qed

lemma Server_writes_clients: "clients (Server_writes h ds s) = clients s"
  unfolding Server_writes_def
  by (induction ds arbitrary: s) (simp_all add: Server_write_clients)

lemma Server_on_write_stream:
  assumes "ok_send r" and "held h s"
  shows "wires (Server_on_write h r s) h @ concat (server.buffers (Server_on_write h r s) h)
           = wires s h @ concat (server.buffers s h)
         \<and> held h (Server_on_write h r s)"
proof (cases "server.buffers s h")
  case Nil
  then show ?thesis using assms
    by (auto simp: Server_on_write_def held_def Let_def fire_def)
next
  case (Cons d rest)
  with assms(2) have tr: "h \<in> set (clients s)" by (simp add: held_def)
  show ?thesis
  proof (cases r)
    case (Sent n)
    then show ?thesis using Cons tr
      by (auto simp: Server_on_write_def Server_uwrite_def held_def Let_def fire_def)
  next
    case (SendErr e)
    then show ?thesis using Cons tr assms(1)
      by (auto simp: Server_on_write_def Server_uwrite_def held_def Let_def fire_def)
  qed
qed

lemma Server_pump_stream:
  "list_all ok_send rs \<Longrightarrow> held h s \<Longrightarrow>
   wires (Server_pump h rs s) h @ concat (server.buffers (Server_pump h rs s) h)
     = wires s h @ concat (server.buffers s h)"
  unfolding Server_pump_def
proof (induction rs arbitrary: s)
  case Nil
  show ?case by simp
next
  case (Cons r rs)
  from Cons.prems have r: "ok_send r" and rest: "list_all ok_send rs" by simp_all
  note step = Server_on_write_stream [OF r Cons.prems(2)]
  have "wires (fold (Server_on_write h) rs (Server_on_write h r s)) h
          @ concat (server.buffers (fold (Server_on_write h) rs (Server_on_write h r s)) h)
        = wires (Server_on_write h r s) h @ concat (server.buffers (Server_on_write h r s) h)"
    using Cons.IH [OF rest] step by blast
  then show ?case using step by simp
qed

subsection \<open>Order of the bytes on the wire\<close>

text \<open>
  C1. Let the chunks \<open>chunks\<close> be written to a client, and let any number of write-ready
  events follow, the \<^verbatim>\<open>send\<close> of each taking some number of bytes (none, a part of the
  chunk, or all of it). Then the bytes taken so far, followed by what the buffer still
  holds, are the bytes taken before, the old content of the buffer and the chunks, in
  this order; once the buffer is empty the wire holds exactly that, each byte once.
  A short \<^verbatim>\<open>send\<close> takes a prefix of the head chunk and puts the rest of this chunk back
  at the front of the buffer, before every later chunk. Sends that take each chunk whole
  empty the buffer. The same equation holds for an accepted socket of a server, where a
  \<^verbatim>\<open>send\<close> may also fail with \<^verbatim>\<open>EINTR\<close>, \<^verbatim>\<open>EWOULDBLOCK\<close> or \<^verbatim>\<open>ENOBUFS\<close>.
\<close>

theorem C1_write_order:
  "(list_all is_sent rs \<longrightarrow>
      (let c' = Client_pump rs (Client_writes chunks c) in
         client.wire c' @ concat (buffer c') = client.wire c @ concat (buffer c) @ concat chunks \<and>
         (buffer c' = [] \<longrightarrow>
            client.wire c' = client.wire c @ concat (buffer c) @ concat chunks)))
   \<and> (buffer c = d # rest \<and> n < length d \<longrightarrow>
        buffer (Client_on_write (Sent n) c) = drop n d # rest \<and>
        client.wire (Client_on_write (Sent n) c) = client.wire c @ take n d)
   \<and> buffer (Client_pump (full_sends (buffer c @ chunks)) (Client_writes chunks c)) = []
   \<and> (list_all ok_send qs \<and> h \<in> set (clients s) \<longrightarrow>
        (let s' = Server_pump h qs (Server_writes h chunks s) in
           wires s' h @ concat (server.buffers s' h)
             = wires s h @ concat (server.buffers s h) @ concat chunks))"
proof (intro conjI impI)
  assume ok: "list_all is_sent rs"
  have eq: "client.wire (Client_pump rs (Client_writes chunks c))
              @ concat (buffer (Client_pump rs (Client_writes chunks c)))
            = client.wire c @ concat (buffer c) @ concat chunks"
    using Client_pump_stream [OF ok, of "Client_writes chunks c"]
      Client_writes_stream [of chunks c] by (rule trans)
  show "let c' = Client_pump rs (Client_writes chunks c) in
         client.wire c' @ concat (buffer c') = client.wire c @ concat (buffer c) @ concat chunks \<and>
         (buffer c' = [] \<longrightarrow>
            client.wire c' = client.wire c @ concat (buffer c) @ concat chunks)"
    unfolding Let_def
  proof (intro conjI impI)
    show "client.wire (Client_pump rs (Client_writes chunks c))
              @ concat (buffer (Client_pump rs (Client_writes chunks c)))
            = client.wire c @ concat (buffer c) @ concat chunks" by (rule eq)
  next
    assume e: "buffer (Client_pump rs (Client_writes chunks c)) = []"
    show "client.wire (Client_pump rs (Client_writes chunks c))
            = client.wire c @ concat (buffer c) @ concat chunks"
      using eq unfolding e by simp
  qed
next
  assume a: "buffer c = d # rest \<and> n < length d"
  then have b: "buffer c = d # rest" and l: "n < length d" by blast+
  show "buffer (Client_on_write (Sent n) c) = drop n d # rest"
    using Client_on_write_short [OF b l] by (rule conjunct1)
  show "client.wire (Client_on_write (Sent n) c) = client.wire c @ take n d"
    using Client_on_write_short [OF b l] by (rule conjunct2)
next
  have "buffer (Client_writes chunks c) = buffer c @ chunks" by (rule Client_writes_buffer)
  then show "buffer (Client_pump (full_sends (buffer c @ chunks)) (Client_writes chunks c)) = []"
    using Client_pump_full [of "Client_writes chunks c"] by simp
next
  assume a: "list_all ok_send qs \<and> h \<in> set (clients s)"
  then have ok: "list_all ok_send qs" and tr: "h \<in> set (clients s)" by blast+
  have "held h (Server_writes h chunks s)"
    using tr by (simp add: held_def Server_writes_clients)
  then have "wires (Server_pump h qs (Server_writes h chunks s)) h
               @ concat (server.buffers (Server_pump h qs (Server_writes h chunks s)) h)
             = wires (Server_writes h chunks s) h
                 @ concat (server.buffers (Server_writes h chunks s) h)"
    by (rule Server_pump_stream [OF ok])
  also have "\<dots> = wires s h @ concat (server.buffers s h) @ concat chunks"
    by (rule Server_writes_stream)
  finally show "let s' = Server_pump h qs (Server_writes h chunks s) in
           wires s' h @ concat (server.buffers s' h)
             = wires s h @ concat (server.buffers s h) @ concat chunks"
    unfolding Let_def .
qed

text \<open>
  The chunks \<open>''abc''\<close> and \<open>''de''\<close> on a fresh client, sent in pieces of 2, 1, 0 and 2
  bytes; and on the socket 5 that a server has accepted, with one \<^verbatim>\<open>EINTR\<close> in between.
\<close>

theorem C1_write_order_witness:
  "list_all is_sent [Sent 2, Sent 1, Sent 0, Sent 2]
   \<and> client.wire (Client_pump [Sent 2, Sent 1, Sent 0, Sent 2]
        (Client_writes [''abc'', ''de''] (Client_init 3))) = ''abcde''
   \<and> buffer (Client_pump [Sent 2, Sent 1, Sent 0, Sent 2]
        (Client_writes [''abc'', ''de''] (Client_init 3))) = []
   \<and> list_all ok_send [Sent 1, SendErr EINTR, Sent 2, Sent 2]
   \<and> 5 \<in> set (clients ((Server_init 1)\<lparr>clients := [5]\<rparr>))
   \<and> wires (Server_pump 5 [Sent 1, SendErr EINTR, Sent 2, Sent 2]
        (Server_writes 5 [''abc'', ''de''] ((Server_init 1)\<lparr>clients := [5]\<rparr>))) 5 = ''abcde''"
proof -
  have h1: "list_all is_sent [Sent 2, Sent 1, Sent 0, Sent 2]" by simp
  have h2: "list_all ok_send [Sent 1, SendErr EINTR, Sent 2, Sent 2]" by simp
  have h3: "5 \<in> set (clients ((Server_init 1)\<lparr>clients := [5]\<rparr>))" by simp
  have b1: "buffer (Client_pump [Sent 2, Sent 1, Sent 0, Sent 2]
              (Client_writes [''abc'', ''de''] (Client_init 3))) = []"
    by (simp add: Client_pump_def Client_writes_def Client_write_def Client_on_write_def
        Client_init_def Let_def isWriting_def addWriter_def removeWriter_def)
  have b2: "server.buffers (Server_pump 5 [Sent 1, SendErr EINTR, Sent 2, Sent 2]
              (Server_writes 5 [''abc'', ''de''] ((Server_init 1)\<lparr>clients := [5]\<rparr>))) 5 = []"
    by (simp add: Server_pump_def Server_writes_def Server_write_def Server_on_write_def
        Server_uwrite_def Server_init_def Let_def isWriting_def addWriter_def removeWriter_def
        EINTR_def EWOULDBLOCK_def ENOBUFS_def)
  have i1: "client.wire (Client_init 3) = [] \<and> buffer (Client_init 3) = []"
    by (simp add: Client_init_def)
  have i2: "wires ((Server_init 1)\<lparr>clients := [5]\<rparr>) 5 = []
            \<and> server.buffers ((Server_init 1)\<lparr>clients := [5]\<rparr>) 5 = []"
    by (simp add: Server_init_def)
  from C1_write_order [of "[Sent 2, Sent 1, Sent 0, Sent 2]" "[''abc'', ''de'']" "Client_init 3"
      "''x''" "[]" 0 "[Sent 1, SendErr EINTR, Sent 2, Sent 2]" 5 "(Server_init 1)\<lparr>clients := [5]\<rparr>"]
  show ?thesis
    using h1 h2 h3 b1 b2 i1 i2 by (simp add: Let_def)
qed

subsection \<open>Closing a client that is not connected\<close>

text \<open>
  C10. On a client whose \<^verbatim>\<open>_connected\<close> flag is false, \<^verbatim>\<open>_close\<close> returns the state as
  it is. So \<^verbatim>\<open>close()\<close> with an empty buffer changes nothing at all: no call to the
  poller or the socket, the buffer and the close flag as before, no event. Whatever the
  buffer holds, \<^verbatim>\<open>close()\<close> on such a client fires no event and touches neither the
  poller, the socket nor the buffer.
\<close>

theorem C10_close_unconnected:
  "\<not> connected c \<Longrightarrow>
     Client_uclose c = c
     \<and> (buffer c = [] \<longrightarrow> Client_close c = c)
     \<and> fired (Client_close c) = fired c
     \<and> poller (Client_close c) = poller c
     \<and> torn (Client_close c) = torn c
     \<and> buffer (Client_close c) = buffer c
     \<and> connected (Client_close c) = connected c"
  by (simp add: Client_close_def Client_uclose_def)

theorem C10_close_unconnected_witness:
  "\<not> connected (Client_init 3) \<and> buffer (Client_init 3) = []
   \<and> Client_close (Client_init 3) = Client_init 3
   \<and> Client_uclose (Client_init 3) = Client_init 3"
proof -
  have h: "\<not> connected (Client_init 3)" by (simp add: Client_init_def)
  have b: "buffer (Client_init 3) = []" by (simp add: Client_init_def)
  from C10_close_unconnected [OF h] b h show ?thesis by simp
qed

subsection \<open>Close and drain\<close>






text \<open>The definitions that evaluate a run on concrete states.\<close>

lemmas client_eval =
  Client_pump_def Client_writes_def Client_write_def Client_on_write_def Client_close_def
  Client_uclose_def Client_init_def Let_def fire_def isWriting_def addWriter_def
  removeWriter_def discard_def addReader_def

lemmas server_eval =
  Server_pump_def Server_writes_def Server_write_def Server_on_write_def Server_uwrite_def
  Server_close_def Server_init_def Let_def fire_def isWriting_def addWriter_def
  removeWriter_def discard_def addReader_def


subsection \<open>Registration for write-readiness\<close>

lemma client_inv_init: "client_inv (Client_init x)"
  by (simp add: client_inv_def Client_init_def isWriting_def)

lemma client_inv_write: "client_inv c \<Longrightarrow> client_inv (Client_write d c)"
  by (simp add: client_inv_def Client_write_def Let_def isWriting_def addWriter_def)

lemma client_inv_uclose: "client_inv c \<Longrightarrow> client_inv (Client_uclose c)"
  by (auto simp: client_inv_def Client_uclose_def Let_def isWriting_def discard_def fire_def)

lemma client_inv_close:
  "client_inv c \<Longrightarrow> connected c \<or> buffer c = [] \<Longrightarrow> client_inv (Client_close c)"
  by (auto simp: client_inv_def Client_close_def Client_uclose_def Let_def isWriting_def
      discard_def fire_def)

lemma client_inv_uwrite:
  "(closeflag c \<longrightarrow> connected c) \<Longrightarrow>
   (closeflag (Client_uwrite d r c) \<longrightarrow> connected (Client_uwrite d r c))"
  by (cases r) (auto simp: Client_uclose_def Let_def fire_def)

lemma client_inv_on_write: "client_inv c \<Longrightarrow> client_inv (Client_on_write r c)"
proof (cases "buffer c")
  case Nil
  assume "client_inv c"
  with Nil show ?thesis
    by (auto simp: client_inv_def Client_on_write_def Client_uclose_def Let_def isWriting_def
        discard_def removeWriter_def fire_def)
next
  case (Cons d rest)
  assume inv: "client_inv c"
  show ?thesis
  proof (cases r)
    case (Sent n)
    with Cons inv show ?thesis
      by (auto simp: client_inv_def Client_on_write_def Client_uclose_def Let_def isWriting_def
          discard_def removeWriter_def fire_def)
  next
    case (SendErr e)
    with Cons inv show ?thesis
      by (auto simp: client_inv_def Client_on_write_def Client_uclose_def Let_def isWriting_def
          discard_def removeWriter_def fire_def)
  qed
qed

lemma Client_write_calls:
  "isWriting (poller (Client_write d c)) (client.sock c)
   \<and> buffer (Client_write d c) \<noteq> []
   \<and> calls (poller (Client_write d c))
       = calls (poller c) @ (if isWriting (poller c) (client.sock c) then []
                             else [AddWriter (client.sock c)])"
  by (simp add: Client_write_def Let_def isWriting_def addWriter_def)

lemma Client_on_write_calls:
  "\<not> closeflag c \<Longrightarrow>
   calls (poller (Client_on_write (Sent n) c))
     = calls (poller c) @ (if buffer (Client_on_write (Sent n) c) = []
                               \<and> isWriting (poller c) (client.sock c)
                           then [RemoveWriter (client.sock c)] else [])"
  by (cases "buffer c") (auto simp: Client_on_write_def Let_def isWriting_def removeWriter_def)

lemma Client_on_write_idle:
  "\<not> closeflag c \<Longrightarrow> buffer c = [] \<Longrightarrow> \<not> isWriting (poller c) (client.sock c) \<Longrightarrow>
   Client_on_write r c = c"
  by (simp add: Client_on_write_def Let_def)

lemma server_inv_init: "server_inv k (Server_init l)"
  by (simp add: server_inv_def Server_init_def isWriting_def)

lemma server_inv_write: "server_inv k s \<Longrightarrow> server_inv k (Server_write h d s)"
  by (auto simp: server_inv_def tracked_def Server_write_def Let_def isWriting_def addWriter_def)

lemma server_inv_uclose_removed:
  "server_inv k s \<Longrightarrow> k = h \<longrightarrow> h \<notin> set (server.closeq s) \<Longrightarrow>
   server_inv k (Server_uclose (Some h) s)"
  by (auto simp: server_inv_def tracked_def Let_def isWriting_def discard_def fire_def)

lemma server_inv_dequeue:
  "server_inv k s \<Longrightarrow> server.buffers s h = [] \<Longrightarrow>
   server_inv k (Server_uclose (Some h) (s\<lparr>server.closeq := remove1 h (server.closeq s)\<rparr>))"
  by (auto simp: server_inv_def tracked_def Let_def isWriting_def discard_def fire_def)

lemma server_inv_uwrite_ok:
  "server_inv k s \<Longrightarrow> server.buffers s h = d # rest \<Longrightarrow>
   server_inv k (Server_on_write h r s)"
proof -
  assume inv: "server_inv k s" and b: "server.buffers s h = d # rest"
  let ?s0 = "s\<lparr>server.buffers := (server.buffers s)(h := rest)\<rparr>"
  show ?thesis
  proof (cases "h \<in> set (clients s)")
    case False
    with inv b show ?thesis
      by (auto simp: server_inv_def tracked_def Server_on_write_def Server_uwrite_def Let_def
          isWriting_def discard_def removeWriter_def fire_def)
  next
    case True
    show ?thesis
    proof (cases r)
      case (Sent n)
      with inv b True show ?thesis
        by (auto simp: server_inv_def tracked_def Server_on_write_def Server_uwrite_def Let_def
            isWriting_def discard_def removeWriter_def fire_def)
    next
      case (SendErr e)
      with inv b True show ?thesis
        by (auto simp: server_inv_def tracked_def Server_on_write_def Server_uwrite_def Let_def
            isWriting_def discard_def removeWriter_def fire_def)
    qed
  qed
qed

lemma server_inv_on_write: "server_inv k s \<Longrightarrow> server_inv k (Server_on_write h r s)"
proof (cases "server.buffers s h")
  case Nil
  assume "server_inv k s"
  with Nil show ?thesis
    by (auto simp: server_inv_def tracked_def Server_on_write_def Let_def
          isWriting_def discard_def removeWriter_def fire_def)
next
  case (Cons d rest)
  assume "server_inv k s"
  then show ?thesis using Cons by (rule server_inv_uwrite_ok)
qed

lemma server_inv_close:
  assumes inv: "server_inv k s" and tr: "tracked h s \<or> server.buffers s h = []"
  shows "server_inv k (Server_close (Some h) s)"
proof -
  have eq: "Server_close (Some h) s = Server_close_one (Some h) s"
    by (simp add: Server_close_def)
  show ?thesis
  proof (cases "server.buffers s h = []")
    case True
    then have "k = h \<longrightarrow> h \<notin> set (server.closeq s)"
      using inv by (auto simp: server_inv_def)
    with inv have "server_inv k (Server_uclose (Some h) s)"
      by (rule server_inv_uclose_removed)
    then show ?thesis using True eq by simp
  next
    case False
    with tr have "tracked h s" by simp
    then have "server_inv k (if h \<notin> set (server.closeq s)
                 then s\<lparr>server.closeq := server.closeq s @ [h]\<rparr> else s)"
      using inv False by (auto simp: server_inv_def tracked_def)
    then show ?thesis using False eq by simp
  qed
qed

lemma Server_write_calls:
  "isWriting (poller (Server_write h d s)) h
   \<and> server.buffers (Server_write h d s) h \<noteq> []
   \<and> calls (poller (Server_write h d s))
       = calls (poller s) @ (if isWriting (poller s) h then [] else [AddWriter h])"
  by (simp add: Server_write_def Let_def isWriting_def addWriter_def)

lemma Server_on_write_calls:
  "h \<notin> set (server.closeq s) \<Longrightarrow>
   calls (poller (Server_on_write h (Sent n) s))
     = calls (poller s) @ (if server.buffers (Server_on_write h (Sent n) s) h = []
                               \<and> isWriting (poller s) h
                           then [RemoveWriter h] else [])"
  by (cases "server.buffers s h")
     (auto simp: Server_on_write_def Server_uwrite_def Let_def isWriting_def removeWriter_def)

lemma Server_on_write_idle:
  "h \<notin> set (server.closeq s) \<Longrightarrow> server.buffers s h = [] \<Longrightarrow> \<not> isWriting (poller s) h \<Longrightarrow>
   Server_on_write h r s = s"
  by (simp add: Server_on_write_def Let_def)

text \<open>
  The claim C3 fails on a client that is not connected: after \<^verbatim>\<open>write\<close>, \<^verbatim>\<open>close()\<close> and a
  write-ready event whose \<^verbatim>\<open>send\<close> raises \<^verbatim>\<open>ENOTCONN\<close>, the buffer is empty and the socket
  is still registered for writing, since both calls of \<^verbatim>\<open>_close\<close> return at its guard.
\<close>

theorem C3_unconnected_counterexample:
  "buffer (Client_on_write (SendErr ENOTCONN) (Client_close (Client_write ''a'' (Client_init 3))))
     = []
   \<and> isWriting
       (poller (Client_on_write (SendErr ENOTCONN)
          (Client_close (Client_write ''a'' (Client_init 3))))) 3"
  by (simp add: client_eval)

text \<open>
  C3, amended. \<open>client_inv\<close>: the socket is registered for writing if and only if the
  buffer is non-empty, and the close flag is set on a connected client only. A fresh
  client satisfies it, and \<^verbatim>\<open>write\<close>, the write-ready handler (whatever \<^verbatim>\<open>send\<close> answers)
  and \<^verbatim>\<open>_close\<close> preserve it, as does \<^verbatim>\<open>close()\<close> on a client that is connected or has
  nothing buffered. \<^verbatim>\<open>write\<close> calls \<^verbatim>\<open>addWriter\<close> exactly when the socket is not yet
  registered. Without close intent, a round whose \<^verbatim>\<open>send\<close> takes bytes calls
  \<^verbatim>\<open>removeWriter\<close> once if it leaves the buffer empty and the socket was registered, and
  calls nothing else; a write-ready event on the drained state changes nothing, so
  there is no second removal. The same holds per socket of a server, where
  \<open>server_inv\<close> asks that a socket in \<^verbatim>\<open>_closeq\<close> is tracked and has data pending.
\<close>

theorem C3_write_interest:
  "client_inv (Client_init x)
   \<and> (client_inv c \<longrightarrow>
        client_inv (Client_write d c) \<and> client_inv (Client_on_write r c)
        \<and> client_inv (Client_uclose c))
   \<and> (client_inv c \<and> (connected c \<or> buffer c = []) \<longrightarrow> client_inv (Client_close c))
   \<and> isWriting (poller (Client_write d c)) (client.sock c)
   \<and> buffer (Client_write d c) \<noteq> []
   \<and> calls (poller (Client_write d c))
       = calls (poller c) @ (if isWriting (poller c) (client.sock c) then []
                             else [AddWriter (client.sock c)])
   \<and> (\<not> closeflag c \<longrightarrow>
        calls (poller (Client_on_write (Sent n) c))
          = calls (poller c) @ (if buffer (Client_on_write (Sent n) c) = []
                                    \<and> isWriting (poller c) (client.sock c)
                                then [RemoveWriter (client.sock c)] else []))
   \<and> (\<not> closeflag c \<and> buffer c = [] \<and> \<not> isWriting (poller c) (client.sock c) \<longrightarrow>
        Client_on_write r c = c)
   \<and> server_inv k (Server_init l)
   \<and> (server_inv k s \<longrightarrow>
        server_inv k (Server_write h d s) \<and> server_inv k (Server_on_write h r s))
   \<and> (server_inv k s \<and> (tracked h s \<or> server.buffers s h = []) \<longrightarrow>
        server_inv k (Server_close (Some h) s))
   \<and> isWriting (poller (Server_write h d s)) h
   \<and> server.buffers (Server_write h d s) h \<noteq> []
   \<and> calls (poller (Server_write h d s))
       = calls (poller s) @ (if isWriting (poller s) h then [] else [AddWriter h])
   \<and> (h \<notin> set (server.closeq s) \<longrightarrow>
        calls (poller (Server_on_write h (Sent n) s))
          = calls (poller s) @ (if server.buffers (Server_on_write h (Sent n) s) h = []
                                    \<and> isWriting (poller s) h
                                then [RemoveWriter h] else []))
   \<and> (h \<notin> set (server.closeq s) \<and> server.buffers s h = [] \<and> \<not> isWriting (poller s) h \<longrightarrow>
        Server_on_write h r s = s)"
proof (intro conjI impI)
  show "client_inv (Client_init x)" by (rule client_inv_init)
next
  assume "client_inv c"
  then show "client_inv (Client_write d c)" and "client_inv (Client_on_write r c)"
    and "client_inv (Client_uclose c)"
    by (rule client_inv_write client_inv_on_write client_inv_uclose)+
next
  assume "client_inv c \<and> (connected c \<or> buffer c = [])"
  then show "client_inv (Client_close c)" using client_inv_close by blast
next
  show "isWriting (poller (Client_write d c)) (client.sock c)"
    and "buffer (Client_write d c) \<noteq> []"
    and "calls (poller (Client_write d c))
       = calls (poller c) @ (if isWriting (poller c) (client.sock c) then []
                             else [AddWriter (client.sock c)])"
    using Client_write_calls [of d c] by blast+
next
  assume "\<not> closeflag c"
  then show "calls (poller (Client_on_write (Sent n) c))
          = calls (poller c) @ (if buffer (Client_on_write (Sent n) c) = []
                                    \<and> isWriting (poller c) (client.sock c)
                                then [RemoveWriter (client.sock c)] else [])"
    by (rule Client_on_write_calls)
next
  assume "\<not> closeflag c \<and> buffer c = [] \<and> \<not> isWriting (poller c) (client.sock c)"
  then show "Client_on_write r c = c" using Client_on_write_idle by blast
next
  show "server_inv k (Server_init l)" by (rule server_inv_init)
next
  assume "server_inv k s"
  then show "server_inv k (Server_write h d s)" and "server_inv k (Server_on_write h r s)"
    by (rule server_inv_write server_inv_on_write)+
next
  assume "server_inv k s \<and> (tracked h s \<or> server.buffers s h = [])"
  then show "server_inv k (Server_close (Some h) s)" using server_inv_close by blast
next
  show "isWriting (poller (Server_write h d s)) h"
    and "server.buffers (Server_write h d s) h \<noteq> []"
    and "calls (poller (Server_write h d s))
       = calls (poller s) @ (if isWriting (poller s) h then [] else [AddWriter h])"
    using Server_write_calls [of h d s] by blast+
next
  assume "h \<notin> set (server.closeq s)"
  then show "calls (poller (Server_on_write h (Sent n) s))
          = calls (poller s) @ (if server.buffers (Server_on_write h (Sent n) s) h = []
                                    \<and> isWriting (poller s) h
                                then [RemoveWriter h] else [])"
    by (rule Server_on_write_calls)
next
  assume "h \<notin> set (server.closeq s) \<and> server.buffers s h = [] \<and> \<not> isWriting (poller s) h"
  then show "Server_on_write h r s = s" using Server_on_write_idle by blast
qed

text \<open>
  On a fresh client, \<^verbatim>\<open>write\<close> of \<open>''ab''\<close> registers the socket and a whole \<^verbatim>\<open>send\<close> removes
  the registration: the poller has seen one \<^verbatim>\<open>addWriter\<close> and one \<^verbatim>\<open>removeWriter\<close>,
  and the next write-ready event changes nothing. Likewise for the accepted socket 5.
\<close>

theorem C3_write_interest_witness:
  "client_inv (Client_init 3)
   \<and> \<not> closeflag (Client_write ''ab'' (Client_init 3))
   \<and> client_inv (Client_on_write (Sent 2) (Client_write ''ab'' (Client_init 3)))
   \<and> calls (poller (Client_on_write (Sent 2) (Client_write ''ab'' (Client_init 3))))
       = [AddWriter 3, RemoveWriter 3]
   \<and> Client_on_write (Sent 2) (Client_on_write (Sent 2) (Client_write ''ab'' (Client_init 3)))
       = Client_on_write (Sent 2) (Client_write ''ab'' (Client_init 3))
   \<and> server_inv 5 ((Server_init 2)\<lparr>clients := [5]\<rparr>)
   \<and> server_inv 5 (Server_on_write 5 (Sent 2)
        (Server_write 5 ''ab'' ((Server_init 2)\<lparr>clients := [5]\<rparr>)))"
proof -
  let ?c = "Client_write ''ab'' (Client_init 3)"
  let ?p = "Client_on_write (Sent 2) ?c"
  let ?s = "(Server_init 2)\<lparr>clients := [5]\<rparr>"
  have i0: "client_inv (Client_init 3)" using C3_write_interest [of 3] by blast
  have i1: "client_inv ?c" using C3_write_interest [of 3 "Client_init 3" "''ab''"] i0 by blast
  have f: "\<not> closeflag ?c" by (simp add: client_eval)
  have i2: "client_inv ?p"
    using C3_write_interest [of 3 ?c "''x''" "Sent 2"] i1 by blast
  have w: "buffer ?p = []" and w2: "isWriting (poller ?c) (client.sock ?c)"
    and w3: "calls (poller ?c) = [AddWriter 3]" and w4: "client.sock ?c = 3"
    by (simp_all add: client_eval)
  have "calls (poller ?p)
          = calls (poller ?c) @ (if buffer ?p = [] \<and> isWriting (poller ?c) (client.sock ?c)
                                 then [RemoveWriter (client.sock ?c)] else [])"
    using C3_write_interest [of 3 ?c "''x''" "Sent 2" 2] f by blast
  then have cl: "calls (poller ?p) = [AddWriter 3, RemoveWriter 3]"
    using w w2 unfolding w3 w4 by simp
  have idle: "\<not> closeflag ?p \<and> buffer ?p = [] \<and> \<not> isWriting (poller ?p) (client.sock ?p)"
    by (simp add: client_eval)
  have again: "Client_on_write (Sent 2) ?p = ?p"
    using C3_write_interest [of 3 ?p "''x''" "Sent 2"] idle by blast
  have s0: "server_inv 5 ?s"
    by (simp add: server_inv_def tracked_def server_eval)
  have s1: "server_inv 5 (Server_write 5 ''ab'' ?s)"
    using C3_write_interest [of 3 ?c "''ab''" "Sent 2" 2 5 2 ?s 5] s0 by blast
  have s2: "server_inv 5 (Server_on_write 5 (Sent 2) (Server_write 5 ''ab'' ?s))"
    using C3_write_interest [of 3 ?c "''ab''" "Sent 2" 2 5 2 "Server_write 5 ''ab'' ?s" 5] s1
    by blast
  show ?thesis using i0 f i2 cl again s0 s2 by blast
qed

subsection \<open>Accepting connections\<close>

text \<open>
  C4. The claim holds where \<^verbatim>\<open>ssl\<close> was imported, and fails where the import failed:
  the module then goes on with \<^verbatim>\<open>HAS_SSL = 0\<close> and the name \<^verbatim>\<open>SSLError\<close> unbound, and
  when \<^verbatim>\<open>accept\<close> raises because the file table is full (\<^verbatim>\<open>ENFILE\<close>), the accept
  handler of a fresh server does not return: \<^verbatim>\<open>NameError\<close> leaves it, from the first
  \<^verbatim>\<open>except\<close> clause. So for \<^verbatim>\<open>EWOULDBLOCK\<close>, the answer of every accept with no
  connection waiting.
\<close>

theorem C4_accept_without_ssl:
  "Server_on_read 2 False (AcceptErr ENFILE) None (Recvd []) (Server_init 2)
     = Inl (NameError, Server_init 2)
   \<and> Server_on_read 2 False (AcceptErr EWOULDBLOCK) None (Recvd []) (Server_init 2)
     = Inl (NameError, Server_init 2)"
  by (simp add: Server_on_read_def Server_uaccept_def Server_init_def)

text \<open>
  Let the listening socket \<open>l\<close> be read-ready, in a module that has imported
  \<^verbatim>\<open>ssl\<close>. When \<^verbatim>\<open>accept\<close> raises \<^verbatim>\<open>EWOULDBLOCK\<close>,
  \<^verbatim>\<open>EAGAIN\<close>, \<^verbatim>\<open>EPERM\<close>, \<^verbatim>\<open>EMFILE\<close>, \<^verbatim>\<open>ENFILE\<close>, \<^verbatim>\<open>ENOBUFS\<close>, \<^verbatim>\<open>ENOMEM\<close> or \<^verbatim>\<open>ECONNABORTED\<close>, the
  handler returns and the server is exactly as before: the listening socket, the
  clients, the buffers, the poller and the events fired. An accept after it does what
  it would have done without the failure. When \<^verbatim>\<open>accept\<close> succeeds (and, for a secure
  server, the TLS wrapping gives the socket \<open>m\<close>), the handler returns with \<open>m\<close>
  registered for reading, appended to the clients, and \<^verbatim>\<open>Connect(m, *peer)\<close> fired;
  nothing else changes.
\<close>

theorem accept_with_ssl:
  "(server.sock s = Some l \<and> ssl
      \<and> (e = EWOULDBLOCK \<or> e = EAGAIN \<or> e = EPERM \<or> e = EMFILE \<or> e = ENFILE
          \<or> e = ENOBUFS \<or> e = ENOMEM \<or> e = ECONNABORTED) \<longrightarrow>
        Server_on_read l ssl (AcceptErr e) w r s = Inr s
        \<and> Server_on_read l ssl a w' r' (state_of (Server_on_read l ssl (AcceptErr e) w r s))
            = Server_on_read l ssl a w' r' s)
   \<and> (server.sock s = Some l
        \<and> (if server.secure s \<and> ssl then w else Some n) = Some m \<longrightarrow>
        Server_on_read l ssl (Accepted n peer) w r s
          = Inr (fire (Connect (Sock m # peer))
                  (s\<lparr>poller := addReader m (poller s), clients := clients s @ [m]\<rparr>))
        \<and> clients (state_of (Server_on_read l ssl (Accepted n peer) w r s)) = clients s @ [m]
        \<and> m \<in> readers (poller (state_of (Server_on_read l ssl (Accepted n peer) w r s)))
        \<and> fired (state_of (Server_on_read l ssl (Accepted n peer) w r s))
            = fired s @ [Connect (Sock m # peer)]
        \<and> server.sock (state_of (Server_on_read l ssl (Accepted n peer) w r s)) = Some l
        \<and> torn (state_of (Server_on_read l ssl (Accepted n peer) w r s)) = torn s)"
proof (intro conjI impI)
  assume a: "server.sock s = Some l \<and> ssl
      \<and> (e = EWOULDBLOCK \<or> e = EAGAIN \<or> e = EPERM \<or> e = EMFILE \<or> e = ENFILE
          \<or> e = ENOBUFS \<or> e = ENOMEM \<or> e = ECONNABORTED)"
  then show same: "Server_on_read l ssl (AcceptErr e) w r s = Inr s"
    by (auto simp: Server_on_read_def Server_uaccept_def)
  show "Server_on_read l ssl a w' r' (state_of (Server_on_read l ssl (AcceptErr e) w r s))
            = Server_on_read l ssl a w' r' s"
    unfolding same by (simp add: state_of_def)
next
  assume a: "server.sock s = Some l \<and> (if server.secure s \<and> ssl then w else Some n) = Some m"
  then show eq: "Server_on_read l ssl (Accepted n peer) w r s
          = Inr (fire (Connect (Sock m # peer))
                  (s\<lparr>poller := addReader m (poller s), clients := clients s @ [m]\<rparr>))"
    by (simp add: Server_on_read_def Server_uaccept_def Let_def)
  show "clients (state_of (Server_on_read l ssl (Accepted n peer) w r s)) = clients s @ [m]"
    and "m \<in> readers (poller (state_of (Server_on_read l ssl (Accepted n peer) w r s)))"
    and "fired (state_of (Server_on_read l ssl (Accepted n peer) w r s))
            = fired s @ [Connect (Sock m # peer)]"
    and "server.sock (state_of (Server_on_read l ssl (Accepted n peer) w r s)) = Some l"
    and "torn (state_of (Server_on_read l ssl (Accepted n peer) w r s)) = torn s"
    unfolding eq using a by (simp_all add: state_of_def fire_def addReader_def)
qed

text \<open>
  The file table is full (\<^verbatim>\<open>ENFILE\<close>) at the first accept of a fresh server listening on
  socket 2; the next accept gives socket 5 for the peer 10.0.0.7:4000.
\<close>

theorem accept_with_ssl_witness:
  "server.sock (Server_init 2) = Some 2
   \<and> Server_on_read 2 True (AcceptErr ENFILE) None (Recvd []) (Server_init 2)
       = Inr (Server_init 2)
   \<and> clients (state_of (Server_on_read 2 True (Accepted 5 [Host ''10.0.0.7'', Port 4000]) None
        (Recvd [])
        (state_of (Server_on_read 2 True (AcceptErr ENFILE) None (Recvd []) (Server_init 2)))))
       = [5]
   \<and> fired (state_of (Server_on_read 2 True (Accepted 5 [Host ''10.0.0.7'', Port 4000]) None
        (Recvd [])
        (state_of (Server_on_read 2 True (AcceptErr ENFILE) None (Recvd []) (Server_init 2)))))
       = [Connect [Sock 5, Host ''10.0.0.7'', Port 4000]]"
proof -
  let ?s = "Server_init 2"
  let ?a = "Accepted 5 [Host ''10.0.0.7'', Port 4000]"
  have l: "server.sock ?s = Some 2" and c: "clients ?s = []" and f: "fired ?s = []"
    and sec: "(if server.secure ?s \<and> True then None else Some 5) = Some (5::nat)"
    by (simp_all add: Server_init_def)
  note t = accept_with_ssl [of ?s 2 True ENFILE None "Recvd []" ?a None "Recvd []" 5 5
      "[Host ''10.0.0.7'', Port 4000]"]
  have r1: "Server_on_read 2 True (AcceptErr ENFILE) None (Recvd []) ?s = Inr ?s"
    using t l by blast
  have r2: "Server_on_read 2 True ?a None (Recvd [])
              (state_of (Server_on_read 2 True (AcceptErr ENFILE) None (Recvd []) ?s))
            = Server_on_read 2 True ?a None (Recvd []) ?s"
    using t l by blast
  have r3: "clients (state_of (Server_on_read 2 True ?a None (Recvd []) ?s)) = clients ?s @ [5]"
    and r4: "fired (state_of (Server_on_read 2 True ?a None (Recvd []) ?s))
             = fired ?s @ [Connect (Sock 5 # [Host ''10.0.0.7'', Port 4000])]"
    using t l sec by blast+
  show ?thesis using l r1 r3 r4 unfolding r2 c f by simp
qed

subsection \<open>A send that fails with a broken pipe\<close>

text \<open>
  The claim C5 fails for the stream server: \<^verbatim>\<open>Server._write\<close> fires \<^verbatim>\<open>Error(sock, e)\<close> for
  every error but \<^verbatim>\<open>EINTR\<close>, \<^verbatim>\<open>EWOULDBLOCK\<close> and \<^verbatim>\<open>ENOBUFS\<close>, so also for \<^verbatim>\<open>EPIPE\<close>. And on a
  client that is not connected the failure closes nothing and fires nothing.
\<close>

theorem C5_server_error_counterexample:
  "fired (Server_uwrite 5 ''ab'' (SendErr EPIPE) ((Server_init 2)\<lparr>clients := [5]\<rparr>))
     = [Error [Sock 5, Errno EPIPE], Disconnect [Sock 5]]
   \<and> fired (Client_uwrite ''ab'' (SendErr ENOTCONN) (Client_init 3)) = []
   \<and> torn (Client_uwrite ''ab'' (SendErr ENOTCONN) (Client_init 3)) = []"
  by (simp add: Server_uwrite_def Server_init_def Client_init_def Client_uclose_def
      Let_def fire_def errno_defs)

text \<open>
  C5, amended. Let a \<^verbatim>\<open>send\<close> fail with \<^verbatim>\<open>EPIPE\<close> or \<^verbatim>\<open>ENOTCONN\<close>. A connected client is
  closed at once: the buffer is dropped, the socket discarded from the poller and torn
  down, and the only event fired is \<^verbatim>\<open>Disconnected\<close>; so for the whole write-ready
  handler. The UDP endpoint is closed at once and fires only \<^verbatim>\<open>Disconnect(sock)\<close>. For an
  accepted socket of a stream server \<^verbatim>\<open>Error(sock, e)\<close> is fired, then the socket is
  closed and \<^verbatim>\<open>Disconnect(sock)\<close> fired.
\<close>

theorem C5_peer_teardown:
  "e = EPIPE \<or> e = ENOTCONN \<Longrightarrow>
     (connected c \<longrightarrow>
        Client_uwrite d (SendErr e) c = Client_uclose c
        \<and> fired (Client_uwrite d (SendErr e) c) = fired c @ [Disconnected]
        \<and> torn (Client_uwrite d (SendErr e) c) = torn c @ [client.sock c]
        \<and> buffer (Client_uwrite d (SendErr e) c) = []
        \<and> \<not> connected (Client_uwrite d (SendErr e) c)
        \<and> client.sock c \<notin> writers (poller (Client_uwrite d (SendErr e) c))
        \<and> client.sock c \<notin> readers (poller (Client_uwrite d (SendErr e) c)))
     \<and> (connected c \<and> buffer c = d # rest \<longrightarrow>
        fired (Client_on_write (SendErr e) c) = fired c @ [Disconnected]
        \<and> torn (Client_on_write (SendErr e) c) = torn c @ [client.sock c]
        \<and> buffer (Client_on_write (SendErr e) c) = [])
     \<and> fired (UDPServer_uwrite a d (SendErr e) u) = fired u @ [Disconnect [Sock (udp.sock u)]]
     \<and> torn (UDPServer_uwrite a d (SendErr e) u) = torn u @ [udp.sock u]
     \<and> udp.buffers (UDPServer_uwrite a d (SendErr e) u) (udp.sock u) = []
     \<and> udp.sock u \<notin> writers (poller (UDPServer_uwrite a d (SendErr e) u))
     \<and> (h \<in> set (clients s) \<longrightarrow>
        fired (Server_uwrite h d (SendErr e) s)
          = fired s @ [Error [Sock h, Errno e], Disconnect [Sock h]]
        \<and> torn (Server_uwrite h d (SendErr e) s) = torn s @ [h]
        \<and> server.buffers (Server_uwrite h d (SendErr e) s) h = []
        \<and> h \<notin> writers (poller (Server_uwrite h d (SendErr e) s)))"
proof (intro conjI impI)
  assume e: "e = EPIPE \<or> e = ENOTCONN"
  {
    assume c: "connected c"
    show "Client_uwrite d (SendErr e) c = Client_uclose c" using e by auto
    show "fired (Client_uwrite d (SendErr e) c) = fired c @ [Disconnected]"
      and "torn (Client_uwrite d (SendErr e) c) = torn c @ [client.sock c]"
      and "buffer (Client_uwrite d (SendErr e) c) = []"
      and "\<not> connected (Client_uwrite d (SendErr e) c)"
      and "client.sock c \<notin> writers (poller (Client_uwrite d (SendErr e) c))"
      and "client.sock c \<notin> readers (poller (Client_uwrite d (SendErr e) c))"
      using e c by (auto simp: Client_uclose_def Let_def fire_def discard_def)
  }
  {
    assume c: "connected c \<and> buffer c = d # rest"
    then show "fired (Client_on_write (SendErr e) c) = fired c @ [Disconnected]"
      and "torn (Client_on_write (SendErr e) c) = torn c @ [client.sock c]"
      and "buffer (Client_on_write (SendErr e) c) = []"
      using e
      by (auto simp: Client_on_write_def Client_uclose_def Let_def fire_def discard_def
          isWriting_def)
  }
  show "fired (UDPServer_uwrite a d (SendErr e) u) = fired u @ [Disconnect [Sock (udp.sock u)]]"
    and "torn (UDPServer_uwrite a d (SendErr e) u) = torn u @ [udp.sock u]"
    and "udp.buffers (UDPServer_uwrite a d (SendErr e) u) (udp.sock u) = []"
    and "udp.sock u \<notin> writers (poller (UDPServer_uwrite a d (SendErr e) u))"
    using e
    by (auto simp: UDPServer_uwrite_def UDPServer_uclose_def Let_def fire_def discard_def)
  {
    assume h: "h \<in> set (clients s)"
    have ne: "\<not> (e = EINTR \<or> e = EWOULDBLOCK \<or> e = ENOBUFS)"
      using e by (auto simp: errno_defs)
    show "fired (Server_uwrite h d (SendErr e) s)
          = fired s @ [Error [Sock h, Errno e], Disconnect [Sock h]]"
      and "torn (Server_uwrite h d (SendErr e) s) = torn s @ [h]"
      and "server.buffers (Server_uwrite h d (SendErr e) s) h = []"
      and "h \<notin> writers (poller (Server_uwrite h d (SendErr e) s))"
      using h ne by (simp_all add: Server_uwrite_def Let_def fire_def discard_def)
  }
qed

text \<open>
  \<^verbatim>\<open>EPIPE\<close> on a connected client with \<open>''ab''\<close> pending, on a fresh UDP endpoint, and on the
  accepted socket 5 of a server.
\<close>

theorem C5_peer_teardown_witness:
  "(EPIPE = EPIPE \<or> EPIPE = ENOTCONN)
   \<and> connected (Client_write ''ab'' ((Client_init 3)\<lparr>connected := True\<rparr>))
   \<and> fired (Client_on_write (SendErr EPIPE)
        (Client_write ''ab'' ((Client_init 3)\<lparr>connected := True\<rparr>))) = [Disconnected]
   \<and> torn (Client_on_write (SendErr EPIPE)
        (Client_write ''ab'' ((Client_init 3)\<lparr>connected := True\<rparr>))) = [3]
   \<and> fired (UDPServer_uwrite (''10.0.0.7'', 9) ''ab'' (SendErr EPIPE) (UDPServer_init 4))
       = [Disconnect [Sock 4]]
   \<and> 5 \<in> set (clients ((Server_init 2)\<lparr>clients := [5]\<rparr>))
   \<and> fired (Server_uwrite 5 ''ab'' (SendErr EPIPE) ((Server_init 2)\<lparr>clients := [5]\<rparr>))
       = [Error [Sock 5, Errno EPIPE], Disconnect [Sock 5]]"
proof -
  let ?c = "Client_write ''ab'' ((Client_init 3)\<lparr>connected := True\<rparr>)"
  let ?u = "UDPServer_init 4"
  let ?s = "(Server_init 2)\<lparr>clients := [5]\<rparr>"
  have e: "EPIPE = EPIPE \<or> EPIPE = ENOTCONN" by simp
  have c1: "connected ?c" and c2: "buffer ?c = [''ab'']" and c3: "fired ?c = []"
    and c4: "torn ?c = []" and c5: "client.sock ?c = 3"
    by (simp_all add: client_eval)
  have u1: "fired ?u = []" and u2: "udp.sock ?u = 4" by (simp_all add: UDPServer_init_def)
  have s1: "5 \<in> set (clients ?s)" and s2: "fired ?s = []" by (simp_all add: Server_init_def)
  note t = C5_peer_teardown [OF e, of ?c "''ab''" "[]" "(''10.0.0.7'', 9)" ?u 5 ?s]
  have "fired (Client_on_write (SendErr EPIPE) ?c) = fired ?c @ [Disconnected]"
    and "torn (Client_on_write (SendErr EPIPE) ?c) = torn ?c @ [client.sock ?c]"
    using t c1 c2 by blast+
  then have r1: "fired (Client_on_write (SendErr EPIPE) ?c) = [Disconnected]"
    and r2: "torn (Client_on_write (SendErr EPIPE) ?c) = [3]"
    unfolding c3 c4 c5 by simp_all
  have "fired (UDPServer_uwrite (''10.0.0.7'', 9) ''ab'' (SendErr EPIPE) ?u)
          = fired ?u @ [Disconnect [Sock (udp.sock ?u)]]"
    using t by blast
  then have r3: "fired (UDPServer_uwrite (''10.0.0.7'', 9) ''ab'' (SendErr EPIPE) ?u)
                   = [Disconnect [Sock 4]]"
    unfolding u1 u2 by simp
  have "fired (Server_uwrite 5 ''ab'' (SendErr EPIPE) ?s)
          = fired ?s @ [Error [Sock 5, Errno EPIPE], Disconnect [Sock 5]]"
    using t s1 by blast
  then have r4: "fired (Server_uwrite 5 ''ab'' (SendErr EPIPE) ?s)
                   = [Error [Sock 5, Errno EPIPE], Disconnect [Sock 5]]"
    unfolding s2 by simp
  show ?thesis using e c1 r1 r2 r3 s1 r4 by blast
qed

subsection \<open>No operation but connect marks a client connected\<close>

lemma Client_uclose_quiet:
  "list_ex is_Connected (fired (Client_uclose c)) = list_ex is_Connected (fired c)
   \<and> (connected (Client_uclose c) \<longrightarrow> connected c)"
  by (simp add: Client_uclose_def Let_def fire_def)

lemma Client_close_quiet:
  "list_ex is_Connected (fired (Client_close c)) = list_ex is_Connected (fired c)
   \<and> (connected (Client_close c) \<longrightarrow> connected c)"
  using Client_uclose_quiet [of c] by (simp add: Client_close_def)

lemma Client_uwrite_quiet:
  "list_ex is_Connected (fired (Client_uwrite d r c)) = list_ex is_Connected (fired c)
   \<and> (connected (Client_uwrite d r c) \<longrightarrow> connected c)"
  using Client_uclose_quiet [of c] by (cases r) (simp_all add: Let_def fire_def)

lemma Client_on_write_quiet:
  "list_ex is_Connected (fired (Client_on_write r c)) = list_ex is_Connected (fired c)
   \<and> (connected (Client_on_write r c) \<longrightarrow> connected c)"
proof -
  define c1 where "c1 = (case buffer c of [] \<Rightarrow> c
                         | data # rest \<Rightarrow> Client_uwrite data r (c\<lparr>buffer := rest\<rparr>))"
  have q1: "list_ex is_Connected (fired c1) = list_ex is_Connected (fired c)
            \<and> (connected c1 \<longrightarrow> connected c)"
  proof (cases "buffer c")
    case Nil
    then show ?thesis by (simp add: c1_def)
  next
    case (Cons d rest)
    then show ?thesis
      using Client_uwrite_quiet [of d r "c\<lparr>buffer := rest\<rparr>"] by (simp add: c1_def)
  qed
  have "Client_on_write r c =
          (if buffer c1 = [] then
             (if closeflag c1 then Client_uclose c1
              else if isWriting (poller c1) (client.sock c1)
                   then c1\<lparr>poller := removeWriter (client.sock c1) (poller c1)\<rparr>
                   else c1)
           else c1)"
    by (simp add: Client_on_write_def c1_def Let_def)
  then show ?thesis using q1 Client_uclose_quiet [of c1] by auto
qed

lemma Client_uread_quiet:
  "list_ex is_Connected (fired (Client_uread r c)) = list_ex is_Connected (fired c)
   \<and> (connected (Client_uread r c) \<longrightarrow> connected c)"
proof (cases r)
  case (Recvd d)
  then show ?thesis using Client_close_quiet [of c] by (simp add: fire_def)
next
  case (RecvErr e)
  then show ?thesis
    using Client_uclose_quiet [of "fire (Error [Errno e]) c"] by (simp add: fire_def)
qed

lemma Client_step_quiet:
  "list_ex is_Connected (fired (Client_step op c)) = list_ex is_Connected (fired c)
   \<and> (connected (Client_step op c) \<longrightarrow> connected c)"
proof (cases op)
  case (OpWrite d)
  then show ?thesis by (simp add: Client_write_def Let_def)
next
  case OpClose
  then show ?thesis using Client_close_quiet [of c] by simp
next
  case (OpOnWrite r)
  then show ?thesis using Client_on_write_quiet [of r c] by simp
next
  case (OpOnRead r)
  then show ?thesis using Client_uread_quiet [of r c] by (simp add: Client_on_read_def)
next
  case OpOnDisconnect
  then show ?thesis using Client_uclose_quiet [of c] by (simp add: Client_on_disconnect_def)
qed

lemma Client_run_quiet:
  "\<not> connected c \<Longrightarrow> \<not> list_ex is_Connected (fired c) \<Longrightarrow>
   \<not> connected (Client_run ops c) \<and> \<not> list_ex is_Connected (fired (Client_run ops c))"
  unfolding Client_run_def
proof (induction ops arbitrary: c)
  case Nil
  then show ?case by simp
next
  case (Cons op ops)
  have "\<not> connected (Client_step op c)" and "\<not> list_ex is_Connected (fired (Client_step op c))"
    using Cons.prems Client_step_quiet [of op c] by blast+
  from Cons.IH [OF this] show ?case by simp
qed

subsection \<open>Connecting\<close>

lemma in_progress_not_retry: "in_progress e \<Longrightarrow> e \<noteq> 0 \<and> e \<noteq> EBADF \<and> e \<noteq> EINVAL"
  by (auto simp: in_progress_def errno_defs)

lemma connect_tail_error:
  "e \<noteq> 0 \<Longrightarrow> \<not> in_progress e \<Longrightarrow>
   connect_tail (Some e) w ev c = Inr (fire (Error [Errno e]) c)"
  by (simp add: connect_tail_def truthy_def provisional_def in_progress_def)

lemma connect_tail_in_progress:
  "in_progress e \<Longrightarrow>
   connected (state_of (connect_tail (Some e) w ev c))
   \<and> client.sock c \<in> readers (poller (state_of (connect_tail (Some e) w ev c)))
   \<and> fired (state_of (connect_tail (Some e) w ev c))
       = fired c @ (if client.secure c \<and> w = None then [] else [ev])"
  by (cases w)
     (simp_all add: connect_tail_def truthy_def provisional_def in_progress_def state_of_def
       Let_def fire_def addReader_def)

lemma connect_failure_code:
  "first os = ConnRaises e \<Longrightarrow> e \<noteq> 0 \<Longrightarrow> \<not> in_progress e \<Longrightarrow> e \<noteq> EBADF \<Longrightarrow> e \<noteq> EINVAL \<Longrightarrow>
   \<not> connected c \<Longrightarrow> \<not> list_ex is_Connected (fired c) \<Longrightarrow>
     TCPClient_connect h p sec os c
       = Inr (fire (Error [Errno e]) (c\<lparr>host := h, port := p, client.secure := sec\<rparr>))
     \<and> fired (state_of (TCPClient_connect h p sec os c)) = fired c @ [Error [Errno e]]
     \<and> \<not> connected (Client_run ops (state_of (TCPClient_connect h p sec os c)))
     \<and> \<not> list_ex is_Connected
           (fired (Client_run ops (state_of (TCPClient_connect h p sec os c))))"
proof -
  assume f: "first os = ConnRaises e" and e0: "e \<noteq> 0" and np: "\<not> in_progress e"
    and nb: "e \<noteq> EBADF" and ni: "e \<noteq> EINVAL"
    and nc: "\<not> connected c" and quiet: "\<not> list_ex is_Connected (fired c)"
  let ?c1 = "c\<lparr>host := h, port := p, client.secure := sec\<rparr>"
  have eq: "TCPClient_connect h p sec os c = Inr (fire (Error [Errno e]) ?c1)"
    using f nb ni connect_tail_error [OF e0 np]
    by (simp add: TCPClient_connect_def Let_def)
  have st: "state_of (TCPClient_connect h p sec os c) = fire (Error [Errno e]) ?c1"
    unfolding eq by (simp add: state_of_def)
  have a: "\<not> connected (fire (Error [Errno e]) ?c1)" using nc by (simp add: fire_def)
  have b: "\<not> list_ex is_Connected (fired (fire (Error [Errno e]) ?c1))"
    using quiet by (simp add: fire_def)
  have run: "\<not> connected (Client_run ops (fire (Error [Errno e]) ?c1))
             \<and> \<not> list_ex is_Connected (fired (Client_run ops (fire (Error [Errno e]) ?c1)))"
    using a b by (rule Client_run_quiet)
  have fr: "fired (fire (Error [Errno e]) ?c1) = fired c @ [Error [Errno e]]"
    by (simp add: fire_def)
  show ?thesis using eq run fr unfolding st by blast
qed

lemma connect_in_progress:
  assumes f: "first os = ConnRaises e" and ip: "in_progress e"
    and w: "\<not> (sec \<and> tls os = None)"
  shows "connected (state_of (TCPClient_connect h p sec os c))
         \<and> fired (state_of (TCPClient_connect h p sec os c))
             = fired c @ [Connected (Host h) (Port p)]"
proof -
  let ?c1 = "c\<lparr>host := h, port := p, client.secure := sec\<rparr>"
  have eq: "TCPClient_connect h p sec os c
              = connect_tail (Some e) (tls os) (Connected (Host h) (Port p)) ?c1"
    using f in_progress_not_retry [OF ip] by (simp add: TCPClient_connect_def Let_def)
  show ?thesis
    unfolding eq
    using connect_tail_in_progress [OF ip, of "tls os" "Connected (Host h) (Port p)" ?c1] w
    by simp
qed

lemma Client_on_read_error:
  "connected c \<Longrightarrow> e \<noteq> EWOULDBLOCK \<Longrightarrow>
   fired (Client_on_read (RecvErr e) c) = fired c @ [Error [Errno e], Disconnected]
   \<and> \<not> connected (Client_on_read (RecvErr e) c)"
  by (simp add: Client_on_read_def Client_uclose_def Let_def fire_def)

text \<open>
  The claim C6 fails for the answer a closed port gets: \<^verbatim>\<open>_create_socket\<close> makes the
  socket non-blocking, so its \<^verbatim>\<open>connect\<close> raises \<^verbatim>\<open>EINPROGRESS\<close> whatever the port, and
  \<^verbatim>\<open>TCPClient.connect\<close> then sets the \<^verbatim>\<open>_connected\<close> flag and fires \<^verbatim>\<open>Connected\<close>.
\<close>

theorem C6_in_progress_counterexample:
  "fired (state_of (TCPClient_connect ''example.org'' 81 False
      \<lparr>first = ConnRaises EINPROGRESS, fresh = 9, retry = 0, tls = None\<rparr> (Client_init 3)))
     = [Connected (Host ''example.org'') (Port 81)]
   \<and> connected (state_of (TCPClient_connect ''example.org'' 81 False
      \<lparr>first = ConnRaises EINPROGRESS, fresh = 9, retry = 0, tls = None\<rparr> (Client_init 3)))"
  by (simp add: TCPClient_connect_def connect_tail_def truthy_def provisional_def state_of_def
      Client_init_def Let_def fire_def addReader_def errno_defs)

text \<open>
  C6, amended. When the \<^verbatim>\<open>connect\<close> call of the socket itself raises an error number that
  is neither one of the four that \<^verbatim>\<open>connect\<close> takes for progress (\<^verbatim>\<open>EINPROGRESS\<close> among
  them) nor \<^verbatim>\<open>EBADF\<close> or \<^verbatim>\<open>EINVAL\<close>, \<^verbatim>\<open>TCPClient.connect\<close> fires \<^verbatim>\<open>Error(e)\<close> and returns,
  with no \<^verbatim>\<open>Connected\<close> event and the \<^verbatim>\<open>_connected\<close> flag as it was; whatever is called
  on the client afterwards, short of another \<^verbatim>\<open>connect\<close>, the flag stays false and no
  \<^verbatim>\<open>Connected\<close> event is fired. When the call raises one of the four, as the
  non-blocking socket does for a port that is closed, \<^verbatim>\<open>connect\<close> sets the flag and
  fires \<^verbatim>\<open>Connected(host, port)\<close> at once (unless the TLS wrapping of a secure client
  raises); an error that the read pump meets afterwards fires \<^verbatim>\<open>Error\<close> and then
  \<^verbatim>\<open>Disconnected\<close>, and clears the flag.
\<close>

theorem C6_connect_closed_port:
  "(first os = ConnRaises e \<and> e \<noteq> 0 \<and> \<not> in_progress e \<and> e \<noteq> EBADF \<and> e \<noteq> EINVAL
      \<and> \<not> connected c \<and> \<not> list_ex is_Connected (fired c) \<longrightarrow>
      TCPClient_connect h p sec os c
        = Inr (fire (Error [Errno e]) (c\<lparr>host := h, port := p, client.secure := sec\<rparr>))
      \<and> fired (state_of (TCPClient_connect h p sec os c)) = fired c @ [Error [Errno e]]
      \<and> \<not> connected (Client_run ops (state_of (TCPClient_connect h p sec os c)))
      \<and> \<not> list_ex is_Connected
            (fired (Client_run ops (state_of (TCPClient_connect h p sec os c)))))
   \<and> in_progress EINPROGRESS
   \<and> (first os = ConnRaises e \<and> in_progress e \<and> \<not> (sec \<and> tls os = None) \<longrightarrow>
      connected (state_of (TCPClient_connect h p sec os c))
      \<and> fired (state_of (TCPClient_connect h p sec os c))
          = fired c @ [Connected (Host h) (Port p)]
      \<and> (x \<noteq> EWOULDBLOCK \<longrightarrow>
          fired (Client_on_read (RecvErr x) (state_of (TCPClient_connect h p sec os c)))
            = fired c @ [Connected (Host h) (Port p), Error [Errno x], Disconnected]
          \<and> \<not> connected
                (Client_on_read (RecvErr x) (state_of (TCPClient_connect h p sec os c)))))"
proof (intro conjI impI)
  assume a: "first os = ConnRaises e \<and> e \<noteq> 0 \<and> \<not> in_progress e \<and> e \<noteq> EBADF \<and> e \<noteq> EINVAL
      \<and> \<not> connected c \<and> \<not> list_ex is_Connected (fired c)"
  then have "TCPClient_connect h p sec os c
        = Inr (fire (Error [Errno e]) (c\<lparr>host := h, port := p, client.secure := sec\<rparr>))
      \<and> fired (state_of (TCPClient_connect h p sec os c)) = fired c @ [Error [Errno e]]
      \<and> \<not> connected (Client_run ops (state_of (TCPClient_connect h p sec os c)))
      \<and> \<not> list_ex is_Connected
            (fired (Client_run ops (state_of (TCPClient_connect h p sec os c))))"
    using connect_failure_code [of os e c h p sec ops] by blast
  then show "TCPClient_connect h p sec os c
        = Inr (fire (Error [Errno e]) (c\<lparr>host := h, port := p, client.secure := sec\<rparr>))"
    and "fired (state_of (TCPClient_connect h p sec os c)) = fired c @ [Error [Errno e]]"
    and "\<not> connected (Client_run ops (state_of (TCPClient_connect h p sec os c)))"
    and "\<not> list_ex is_Connected
            (fired (Client_run ops (state_of (TCPClient_connect h p sec os c))))"
    by blast+
next
  show "in_progress EINPROGRESS" by (simp add: in_progress_def)
next
  assume a: "first os = ConnRaises e \<and> in_progress e \<and> \<not> (sec \<and> tls os = None)"
  then have f: "first os = ConnRaises e" and ip: "in_progress e"
    and w: "\<not> (sec \<and> tls os = None)" by blast+
  note st = connect_in_progress [OF f ip w, of h p c]
  show c1: "connected (state_of (TCPClient_connect h p sec os c))"
    and f1: "fired (state_of (TCPClient_connect h p sec os c))
          = fired c @ [Connected (Host h) (Port p)]"
    using st by blast+
  assume x: "x \<noteq> EWOULDBLOCK"
  note rd = Client_on_read_error [OF c1 x]
  show "fired (Client_on_read (RecvErr x) (state_of (TCPClient_connect h p sec os c)))
            = fired c @ [Connected (Host h) (Port p), Error [Errno x], Disconnected]"
    using rd unfolding f1 by simp
  show "\<not> connected
                (Client_on_read (RecvErr x) (state_of (TCPClient_connect h p sec os c)))"
    using rd by blast
qed

text \<open>
  Error number 111 (connection refused) from the \<^verbatim>\<open>connect\<close> of a fresh client, followed
  by a \<^verbatim>\<open>write\<close>, a write-ready event whose \<^verbatim>\<open>send\<close> fails, and \<^verbatim>\<open>close()\<close>; and
  \<^verbatim>\<open>EINPROGRESS\<close> from the \<^verbatim>\<open>connect\<close>, followed by a read-ready event whose \<^verbatim>\<open>recv\<close> raises
  error number 111.
\<close>

theorem C6_connect_closed_port_witness:
  "first \<lparr>first = ConnRaises 111, fresh = 9, retry = 0, tls = None\<rparr> = ConnRaises 111
   \<and> (111::int) \<noteq> 0 \<and> \<not> in_progress 111 \<and> 111 \<noteq> EBADF \<and> 111 \<noteq> EINVAL
   \<and> \<not> connected (Client_init 3) \<and> \<not> list_ex is_Connected (fired (Client_init 3))
   \<and> fired (state_of (TCPClient_connect ''example.org'' 81 False
        \<lparr>first = ConnRaises 111, fresh = 9, retry = 0, tls = None\<rparr> (Client_init 3)))
       = [Error [Errno 111]]
   \<and> \<not> connected (Client_run [OpWrite ''x'', OpOnWrite (SendErr ENOTCONN), OpClose]
        (state_of (TCPClient_connect ''example.org'' 81 False
           \<lparr>first = ConnRaises 111, fresh = 9, retry = 0, tls = None\<rparr> (Client_init 3))))
   \<and> \<not> list_ex is_Connected (fired
        (Client_run [OpWrite ''x'', OpOnWrite (SendErr ENOTCONN), OpClose]
        (state_of (TCPClient_connect ''example.org'' 81 False
           \<lparr>first = ConnRaises 111, fresh = 9, retry = 0, tls = None\<rparr> (Client_init 3)))))
   \<and> first \<lparr>first = ConnRaises EINPROGRESS, fresh = 9, retry = 0, tls = None\<rparr>
       = ConnRaises EINPROGRESS
   \<and> in_progress EINPROGRESS \<and> 111 \<noteq> EWOULDBLOCK
   \<and> fired (Client_on_read (RecvErr 111) (state_of (TCPClient_connect ''example.org'' 81 False
        \<lparr>first = ConnRaises EINPROGRESS, fresh = 9, retry = 0, tls = None\<rparr> (Client_init 3))))
       = [Connected (Host ''example.org'') (Port 81), Error [Errno 111], Disconnected]"
proof -
  let ?os = "\<lparr>first = ConnRaises 111, fresh = 9, retry = 0, tls = None\<rparr>"
  let ?op = "\<lparr>first = ConnRaises EINPROGRESS, fresh = 9, retry = 0, tls = None\<rparr>"
  let ?ops = "[OpWrite ''x'', OpOnWrite (SendErr ENOTCONN), OpClose]"
  have h1: "first ?os = ConnRaises 111" by simp
  have h2: "(111::int) \<noteq> 0" by simp
  have h3: "\<not> in_progress 111" by (simp add: in_progress_def errno_defs)
  have h4: "111 \<noteq> EBADF" and h5: "111 \<noteq> EINVAL" and h8: "111 \<noteq> EWOULDBLOCK"
    by (simp_all add: errno_defs)
  have h6: "\<not> connected (Client_init 3)" and h7: "\<not> list_ex is_Connected (fired (Client_init 3))"
    and f0: "fired (Client_init 3) = []"
    by (simp_all add: Client_init_def)
  have g1: "first ?op = ConnRaises EINPROGRESS" by simp
  have g2: "in_progress EINPROGRESS" by (simp add: in_progress_def)
  have g3: "\<not> (False \<and> tls ?op = None)" by simp
  note t = C6_connect_closed_port [of ?os 111 "Client_init 3" "''example.org''" 81 False ?ops 111]
  note u = C6_connect_closed_port [of ?op EINPROGRESS "Client_init 3" "''example.org''" 81 False
      ?ops 111]
  have "fired (state_of (TCPClient_connect ''example.org'' 81 False ?os (Client_init 3)))
          = fired (Client_init 3) @ [Error [Errno 111]]"
    using t h1 h2 h3 h4 h5 h6 h7 by blast
  then have r1: "fired (state_of (TCPClient_connect ''example.org'' 81 False ?os (Client_init 3)))
                   = [Error [Errno 111]]"
    unfolding f0 by simp
  have r2: "\<not> connected (Client_run ?ops
              (state_of (TCPClient_connect ''example.org'' 81 False ?os (Client_init 3))))"
    and r3: "\<not> list_ex is_Connected (fired (Client_run ?ops
              (state_of (TCPClient_connect ''example.org'' 81 False ?os (Client_init 3)))))"
    using t h1 h2 h3 h4 h5 h6 h7 by blast+
  have "fired (Client_on_read (RecvErr 111)
          (state_of (TCPClient_connect ''example.org'' 81 False ?op (Client_init 3))))
        = fired (Client_init 3)
            @ [Connected (Host ''example.org'') (Port 81), Error [Errno 111], Disconnected]"
    using u g1 g2 g3 h8 by blast
  then have r4: "fired (Client_on_read (RecvErr 111)
          (state_of (TCPClient_connect ''example.org'' 81 False ?op (Client_init 3))))
        = [Connected (Host ''example.org'') (Port 81), Error [Errno 111], Disconnected]"
    unfolding f0 by simp
  show ?thesis using h1 h2 h3 h4 h5 h6 h7 r1 r2 r3 g1 g2 h8 r4 by blast
qed

text \<open>
  The claim C7 fails for an interrupted call: \<^verbatim>\<open>EINTR\<close> is not in the tuple of
  \<^verbatim>\<open>connect\<close>, so \<^verbatim>\<open>Error(EINTR)\<close> is fired and the client is not marked connected.
\<close>

theorem C7_interrupted_counterexample:
  "fired (state_of (TCPClient_connect ''example.org'' 81 False
      \<lparr>first = ConnRaises EINTR, fresh = 9, retry = 0, tls = None\<rparr> (Client_init 3)))
     = [Error [Errno EINTR]]
   \<and> \<not> connected (state_of (TCPClient_connect ''example.org'' 81 False
      \<lparr>first = ConnRaises EINTR, fresh = 9, retry = 0, tls = None\<rparr> (Client_init 3)))
   \<and> fired (state_of (UNIXClient_connect ''/tmp/sock'' False ''localhost''
      \<lparr>first = ConnReturns (Some EINTR), fresh = 9, retry = 0, tls = None\<rparr> (Client_init 3)))
     = [Error [Errno EINTR]]"
  by (simp add: TCPClient_connect_def UNIXClient_connect_def connect_tail_def truthy_def
      provisional_def state_of_def Client_init_def Let_def fire_def errno_defs)

text \<open>
  C7, amended. \<open>in_progress e\<close> holds of \<^verbatim>\<open>EISCONN\<close>, \<^verbatim>\<open>EWOULDBLOCK\<close>, \<^verbatim>\<open>EINPROGRESS\<close> and
  \<^verbatim>\<open>EALREADY\<close>, and not of \<^verbatim>\<open>EINTR\<close>. When the connect call of the operating system gives
  such a number, \<^verbatim>\<open>connect\<close> sets the \<^verbatim>\<open>_connected\<close> flag and registers the socket for
  reading; it fires no \<^verbatim>\<open>Error\<close> event, but \<^verbatim>\<open>Connected\<close> (unless the TLS wrapping of a
  secure client raises). Any other number that is not 0 makes \<^verbatim>\<open>connect\<close> fire
  \<^verbatim>\<open>Error\<close> with it and return, the flag and the poller as they were; for the TCP client
  this is after one more try on a new socket when the number is \<^verbatim>\<open>EBADF\<close> or \<^verbatim>\<open>EINVAL\<close>,
  and then for the number that try returns.
\<close>

theorem C7_connect_classes:
  "in_progress EISCONN \<and> in_progress EWOULDBLOCK \<and> in_progress EINPROGRESS
   \<and> in_progress EALREADY \<and> \<not> in_progress EINTR
   \<and> (first os = ConnRaises e \<and> in_progress e \<longrightarrow>
        connected (state_of (TCPClient_connect h p sec os c))
        \<and> client.sock c \<in> readers (poller (state_of (TCPClient_connect h p sec os c)))
        \<and> fired (state_of (TCPClient_connect h p sec os c))
            = fired c @ (if sec \<and> tls os = None then [] else [Connected (Host h) (Port p)]))
   \<and> (first os = ConnRaises e \<and> e \<noteq> 0 \<and> \<not> in_progress e \<and> e \<noteq> EBADF \<and> e \<noteq> EINVAL \<longrightarrow>
        TCPClient_connect h p sec os c
          = Inr (fire (Error [Errno e]) (c\<lparr>host := h, port := p, client.secure := sec\<rparr>)))
   \<and> (first os = ConnRaises e \<and> (e = EBADF \<or> e = EINVAL) \<and> retry os \<noteq> 0
        \<and> \<not> in_progress (retry os) \<longrightarrow>
        TCPClient_connect h p sec os c
          = Inr (fire (Error [Errno (retry os)])
                  (c\<lparr>host := h, port := p, client.secure := sec, client.sock := fresh os\<rparr>)))
   \<and> (first os = ConnRaises e \<and> (e = EBADF \<or> e = EINVAL) \<and> in_progress (retry os) \<longrightarrow>
        connected (state_of (TCPClient_connect h p sec os c))
        \<and> fresh os \<in> readers (poller (state_of (TCPClient_connect h p sec os c)))
        \<and> fired (state_of (TCPClient_connect h p sec os c))
            = fired c @ (if sec \<and> tls os = None then [] else [Connected (Host h) (Port p)]))
   \<and> ((first os = ConnReturns (Some e) \<or> first os = ConnRaises e) \<and> in_progress e \<longrightarrow>
        connected (state_of (UNIXClient_connect path sec hn os c))
        \<and> client.sock c \<in> readers (poller (state_of (UNIXClient_connect path sec hn os c)))
        \<and> fired (state_of (UNIXClient_connect path sec hn os c))
            = fired c @ (if sec \<and> tls os = None then [] else [Connected (Host hn) (Host path)]))
   \<and> ((first os = ConnReturns (Some e) \<or> first os = ConnRaises e) \<and> e \<noteq> 0
        \<and> \<not> in_progress e \<longrightarrow>
        UNIXClient_connect path sec hn os c
          = Inr (fire (Error [Errno e]) (c\<lparr>client.secure := sec\<rparr>)))"
proof (intro conjI impI)
  show "in_progress EISCONN" and "in_progress EWOULDBLOCK" and "in_progress EINPROGRESS"
    and "in_progress EALREADY" and "\<not> in_progress EINTR"
    by (simp_all add: in_progress_def errno_defs)
next
  assume a: "first os = ConnRaises e \<and> in_progress e"
  let ?c1 = "c\<lparr>host := h, port := p, client.secure := sec\<rparr>"
  have eq: "TCPClient_connect h p sec os c
              = connect_tail (Some e) (tls os) (Connected (Host h) (Port p)) ?c1"
    using a in_progress_not_retry [of e] by (simp add: TCPClient_connect_def Let_def)
  from a have ip: "in_progress e" by blast
  show "connected (state_of (TCPClient_connect h p sec os c))"
    and "client.sock c \<in> readers (poller (state_of (TCPClient_connect h p sec os c)))"
    and "fired (state_of (TCPClient_connect h p sec os c))
            = fired c @ (if sec \<and> tls os = None then [] else [Connected (Host h) (Port p)])"
    unfolding eq
    using connect_tail_in_progress [OF ip, of "tls os" "Connected (Host h) (Port p)" ?c1]
    by simp_all
next
  assume a: "first os = ConnRaises e \<and> e \<noteq> 0 \<and> \<not> in_progress e \<and> e \<noteq> EBADF \<and> e \<noteq> EINVAL"
  then have e0: "e \<noteq> 0" and np: "\<not> in_progress e" by blast+
  show "TCPClient_connect h p sec os c
          = Inr (fire (Error [Errno e]) (c\<lparr>host := h, port := p, client.secure := sec\<rparr>))"
    using a connect_tail_error [OF e0 np] by (simp add: TCPClient_connect_def Let_def)
next
  assume a: "first os = ConnRaises e \<and> (e = EBADF \<or> e = EINVAL) \<and> retry os \<noteq> 0
        \<and> \<not> in_progress (retry os)"
  then have e0: "retry os \<noteq> 0" and np: "\<not> in_progress (retry os)" by blast+
  show "TCPClient_connect h p sec os c
          = Inr (fire (Error [Errno (retry os)])
                  (c\<lparr>host := h, port := p, client.secure := sec, client.sock := fresh os\<rparr>))"
    using a connect_tail_error [OF e0 np] by (auto simp: TCPClient_connect_def Let_def)
next
  assume a: "first os = ConnRaises e \<and> (e = EBADF \<or> e = EINVAL) \<and> in_progress (retry os)"
  let ?c1 = "c\<lparr>host := h, port := p, client.secure := sec, client.sock := fresh os\<rparr>"
  have eq: "TCPClient_connect h p sec os c
              = connect_tail (Some (retry os)) (tls os) (Connected (Host h) (Port p)) ?c1"
    using a by (auto simp: TCPClient_connect_def Let_def)
  from a have ip: "in_progress (retry os)" by blast
  show "connected (state_of (TCPClient_connect h p sec os c))"
    and "fresh os \<in> readers (poller (state_of (TCPClient_connect h p sec os c)))"
    and "fired (state_of (TCPClient_connect h p sec os c))
            = fired c @ (if sec \<and> tls os = None then [] else [Connected (Host h) (Port p)])"
    unfolding eq
    using connect_tail_in_progress [OF ip, of "tls os" "Connected (Host h) (Port p)" ?c1]
    by simp_all
next
  assume a: "(first os = ConnReturns (Some e) \<or> first os = ConnRaises e) \<and> in_progress e"
  let ?c1 = "c\<lparr>client.secure := sec\<rparr>"
  have eq: "UNIXClient_connect path sec hn os c
              = connect_tail (Some e) (tls os) (Connected (Host hn) (Host path)) ?c1"
    using a by (auto simp: UNIXClient_connect_def Let_def)
  from a have ip: "in_progress e" by blast
  show "connected (state_of (UNIXClient_connect path sec hn os c))"
    and "client.sock c \<in> readers (poller (state_of (UNIXClient_connect path sec hn os c)))"
    and "fired (state_of (UNIXClient_connect path sec hn os c))
            = fired c @ (if sec \<and> tls os = None then [] else [Connected (Host hn) (Host path)])"
    unfolding eq
    using connect_tail_in_progress [OF ip, of "tls os" "Connected (Host hn) (Host path)" ?c1]
    by simp_all
next
  assume a: "(first os = ConnReturns (Some e) \<or> first os = ConnRaises e) \<and> e \<noteq> 0
        \<and> \<not> in_progress e"
  then have e0: "e \<noteq> 0" and np: "\<not> in_progress e" by blast+
  show "UNIXClient_connect path sec hn os c
          = Inr (fire (Error [Errno e]) (c\<lparr>client.secure := sec\<rparr>))"
    using a connect_tail_error [OF e0 np] by (auto simp: UNIXClient_connect_def Let_def)
qed

text \<open>
  \<^verbatim>\<open>EINPROGRESS\<close> from the \<^verbatim>\<open>connect\<close> of a fresh TCP client, and error number 111 from the
  \<^verbatim>\<open>connect_ex\<close> of a fresh UNIX client.
\<close>

theorem C7_connect_classes_witness:
  "first \<lparr>first = ConnRaises EINPROGRESS, fresh = 9, retry = 0, tls = None\<rparr>
     = ConnRaises EINPROGRESS
   \<and> in_progress EINPROGRESS
   \<and> connected (state_of (TCPClient_connect ''example.org'' 81 False
        \<lparr>first = ConnRaises EINPROGRESS, fresh = 9, retry = 0, tls = None\<rparr> (Client_init 3)))
   \<and> fired (state_of (TCPClient_connect ''example.org'' 81 False
        \<lparr>first = ConnRaises EINPROGRESS, fresh = 9, retry = 0, tls = None\<rparr> (Client_init 3)))
       = [Connected (Host ''example.org'') (Port 81)]
   \<and> first \<lparr>first = ConnReturns (Some 111), fresh = 9, retry = 0, tls = None\<rparr>
       = ConnReturns (Some 111)
   \<and> (111::int) \<noteq> 0 \<and> \<not> in_progress 111
   \<and> fired (state_of (UNIXClient_connect ''/tmp/sock'' False ''localhost''
        \<lparr>first = ConnReturns (Some 111), fresh = 9, retry = 0, tls = None\<rparr> (Client_init 3)))
       = [Error [Errno 111]]"
proof -
  let ?os = "\<lparr>first = ConnRaises EINPROGRESS, fresh = 9, retry = 0, tls = None\<rparr>"
  let ?ox = "\<lparr>first = ConnReturns (Some 111), fresh = 9, retry = 0, tls = None\<rparr>"
  let ?c = "Client_init 3"
  have h1: "first ?os = ConnRaises EINPROGRESS" by simp
  have h2: "in_progress EINPROGRESS" by (simp add: in_progress_def)
  have h3: "first ?ox = ConnReturns (Some 111)" by simp
  have h4: "(111::int) \<noteq> 0" by simp
  have h5: "\<not> in_progress 111" by (simp add: in_progress_def errno_defs)
  have f0: "fired ?c = []" by (simp add: Client_init_def)
  have tn: "tls ?os = None" by simp
  note t1 = C7_connect_classes [of ?os EINPROGRESS "''example.org''" 81 False ?c
      "''/tmp/sock''" "''localhost''"]
  note t2 = C7_connect_classes [of ?ox 111 "''example.org''" 81 False ?c
      "''/tmp/sock''" "''localhost''"]
  have r1: "connected (state_of (TCPClient_connect ''example.org'' 81 False ?os ?c))"
    using t1 h1 h2 by blast
  have "fired (state_of (TCPClient_connect ''example.org'' 81 False ?os ?c))
          = fired ?c @ (if False \<and> tls ?os = None then []
                        else [Connected (Host ''example.org'') (Port 81)])"
    using t1 h1 h2 by blast
  then have r2: "fired (state_of (TCPClient_connect ''example.org'' 81 False ?os ?c))
                   = [Connected (Host ''example.org'') (Port 81)]"
    unfolding f0 by simp
  have "UNIXClient_connect ''/tmp/sock'' False ''localhost'' ?ox ?c
          = Inr (fire (Error [Errno 111]) (?c\<lparr>client.secure := False\<rparr>))"
    using t2 h3 h4 h5 by blast
  then have r3: "fired (state_of (UNIXClient_connect ''/tmp/sock'' False ''localhost'' ?ox ?c))
                   = [Error [Errno 111]]"
    by (simp add: state_of_def fire_def f0)
  show ?thesis using h1 h2 r1 r2 h3 h4 h5 r3 by blast
qed

subsection \<open>Closing twice\<close>

lemma Client_uclose_twice: "Client_uclose (Client_uclose c) = Client_uclose c"
  by (simp add: Client_uclose_def Let_def fire_def)

lemma Client_close_twice: "Client_close (Client_close c) = Client_close c"
proof (cases "buffer c = []")
  case True
  then have "Client_close c = Client_uclose c" by (simp add: Client_close_def)
  moreover have "buffer (Client_uclose c) = []" using True by (rule Client_uclose_buffer_concat)
  ultimately show ?thesis by (simp add: Client_close_def Client_uclose_twice)
next
  case False
  then show ?thesis by (simp add: Client_close_def)
qed

lemma Server_uclose_untracked: "\<not> tracked h s \<Longrightarrow> Server_uclose (Some h) s = s"
  by (auto simp: tracked_def)

lemma Server_uclose_untracks:
  "wf_server s \<Longrightarrow> \<not> tracked h (Server_uclose (Some h) s)"
  by (auto simp: wf_server_def tracked_def Let_def fire_def split: option.splits)

lemma Server_uclose_wf: "wf_server s \<Longrightarrow> wf_server (Server_uclose (Some h) s)"
  by (auto simp: wf_server_def Let_def fire_def split: option.splits)

lemma Server_uclose_twice:
  "wf_server s \<Longrightarrow> Server_uclose (Some h) (Server_uclose (Some h) s) = Server_uclose (Some h) s"
  using Server_uclose_untracks [of s h] by (rule Server_uclose_untracked)

lemma Server_uclose_buffers:
  "server.buffers s h = [] \<Longrightarrow> server.buffers (Server_uclose (Some h) s) h = []"
  by (simp add: Let_def fire_def)

lemma Server_close_handle: "Server_close (Some h) s = Server_close_one (Some h) s"
  by (simp add: Server_close_def)

lemma Server_close_twice:
  assumes "wf_server s"
  shows "Server_close (Some h) (Server_close (Some h) s) = Server_close (Some h) s"
proof (cases "server.buffers s h = []")
  case True
  then have a: "Server_close_one (Some h) s = Server_uclose (Some h) s" by simp
  have "server.buffers (Server_uclose (Some h) s) h = []"
    using True by (rule Server_uclose_buffers)
  then have "Server_close_one (Some h) (Server_uclose (Some h) s)
               = Server_uclose (Some h) (Server_uclose (Some h) s)"
    by (simp only: Server_close_one.simps if_True simp_thms)
  also have "\<dots> = Server_uclose (Some h) s" by (rule Server_uclose_twice [OF assms])
  finally show ?thesis unfolding Server_close_handle a .
next
  case False
  then show ?thesis unfolding Server_close_handle by simp
qed

text \<open>
  The claim C8 fails for the UDP endpoint, whose \<^verbatim>\<open>_close\<close> has no guard: a second
  \<^verbatim>\<open>close()\<close> fires \<^verbatim>\<open>Closed\<close> and \<^verbatim>\<open>Disconnect\<close> again. And \<^verbatim>\<open>Server.close()\<close> without a
  socket fires \<^verbatim>\<open>Closed\<close> at each call.
\<close>

theorem C8_udp_close_twice_counterexample:
  "fired (UDPServer_close (UDPServer_init 4)) = [Closed, Disconnect [Sock 4]]
   \<and> fired (UDPServer_close (UDPServer_close (UDPServer_init 4)))
       = [Closed, Disconnect [Sock 4], Closed, Disconnect [Sock 4]]
   \<and> fired (Server_close None (Server_close None (Server_init 2)))
       = [Disconnect [Sock 2], Closed, Closed]"
  by (simp add: UDPServer_close_def UDPServer_uclose_def UDPServer_init_def Server_close_def
      Server_init_def Let_def fire_def)

text \<open>
  C8, amended. On a client, a second \<^verbatim>\<open>_close\<close> and a second \<^verbatim>\<open>close()\<close> leave the state
  of the first, and \<^verbatim>\<open>_close\<close> with the \<^verbatim>\<open>_connected\<close> flag false changes nothing. On a
  stream server, \<^verbatim>\<open>_close\<close> of \<^verbatim>\<open>None\<close> or of a socket that is neither the listening
  socket nor an accepted one changes nothing, and so does \<^verbatim>\<open>close(sock)\<close> for such a
  socket with nothing buffered; where the accepted sockets are distinct and differ
  from the listening socket, a second \<^verbatim>\<open>_close(sock)\<close> and a second \<^verbatim>\<open>close(sock)\<close> leave
  the state of the first. Equal states have fired the same events. The UDP endpoint
  fires \<^verbatim>\<open>Disconnect\<close> at every \<^verbatim>\<open>_close\<close>; its \<^verbatim>\<open>close()\<close> fires \<^verbatim>\<open>Closed\<close> at every call,
  followed by \<^verbatim>\<open>Disconnect\<close> unless datagrams are pending and the socket is not yet in
  \<^verbatim>\<open>_closeq\<close>. The stream server fires \<^verbatim>\<open>Closed\<close>, after the events of the sockets it
  closes, at every \<^verbatim>\<open>close()\<close> that names no socket.
\<close>

theorem C8_close_idempotent:
  "Client_uclose (Client_uclose c) = Client_uclose c
   \<and> Client_close (Client_close c) = Client_close c
   \<and> (\<not> connected c \<longrightarrow> Client_uclose c = c)
   \<and> Server_uclose None s = s
   \<and> (\<not> tracked h s \<longrightarrow>
        Server_uclose (Some h) s = s
        \<and> (server.buffers s h = [] \<longrightarrow> Server_close (Some h) s = s))
   \<and> (wf_server s \<longrightarrow>
        Server_uclose (Some h) (Server_uclose (Some h) s) = Server_uclose (Some h) s
        \<and> Server_close (Some h) (Server_close (Some h) s) = Server_close (Some h) s
        \<and> wf_server (Server_uclose (Some h) s))
   \<and> fired (UDPServer_uclose h u) = fired u @ [Disconnect [Sock h]]
   \<and> fired (UDPServer_close u)
       = fired u @ (if udp.buffers u (udp.sock u) \<noteq> [] \<and> udp.sock u \<notin> set (udp.closeq u)
                    then [Closed] else [Closed, Disconnect [Sock (udp.sock u)]])
   \<and> fired (Server_close None s)
       = fired (fold Server_close_one (server.sock s # map Some (clients s)) s) @ [Closed]"
proof (intro conjI impI)
  show "Client_uclose (Client_uclose c) = Client_uclose c" by (rule Client_uclose_twice)
  show "Client_close (Client_close c) = Client_close c" by (rule Client_close_twice)
  show "Server_uclose None s = s" by simp
  show "fired (UDPServer_uclose h u) = fired u @ [Disconnect [Sock h]]"
    by (simp add: UDPServer_uclose_def Let_def fire_def)
  show "fired (UDPServer_close u)
       = fired u @ (if udp.buffers u (udp.sock u) \<noteq> [] \<and> udp.sock u \<notin> set (udp.closeq u)
                    then [Closed] else [Closed, Disconnect [Sock (udp.sock u)]])"
    by (simp add: UDPServer_close_def UDPServer_uclose_def Let_def fire_def)
  show "fired (Server_close None s)
       = fired (fold Server_close_one (server.sock s # map Some (clients s)) s) @ [Closed]"
    by (simp add: Server_close_def Let_def fire_def)
next
  assume "\<not> connected c"
  then show "Client_uclose c = c" by (simp add: Client_uclose_def)
next
  assume n: "\<not> tracked h s"
  then show u: "Server_uclose (Some h) s = s" by (rule Server_uclose_untracked)
  assume "server.buffers s h = []"
  then have "Server_close_one (Some h) s = Server_uclose (Some h) s"
    by (simp only: Server_close_one.simps if_True simp_thms)
  then show "Server_close (Some h) s = s" unfolding Server_close_handle u .
next
  assume w: "wf_server s"
  show "Server_uclose (Some h) (Server_uclose (Some h) s) = Server_uclose (Some h) s"
    using w by (rule Server_uclose_twice)
  show "Server_close (Some h) (Server_close (Some h) s) = Server_close (Some h) s"
    using w by (rule Server_close_twice)
  show "wf_server (Server_uclose (Some h) s)" using w by (rule Server_uclose_wf)
qed

text \<open>
  A server with the accepted socket 5: closing it twice fires one \<^verbatim>\<open>Disconnect\<close>; closing
  socket 7, which it does not know, fires none.
\<close>

theorem C8_close_idempotent_witness:
  "wf_server ((Server_init 2)\<lparr>clients := [5]\<rparr>)
   \<and> fired (Server_close (Some 5) (Server_close (Some 5) ((Server_init 2)\<lparr>clients := [5]\<rparr>)))
       = [Disconnect [Sock 5]]
   \<and> \<not> tracked 7 ((Server_init 2)\<lparr>clients := [5]\<rparr>)
   \<and> Server_uclose (Some 7) ((Server_init 2)\<lparr>clients := [5]\<rparr>)
       = (Server_init 2)\<lparr>clients := [5]\<rparr>
   \<and> \<not> connected (Client_init 3)
   \<and> Client_uclose (Client_init 3) = Client_init 3"
proof -
  let ?s = "(Server_init 2)\<lparr>clients := [5]\<rparr>"
  have w: "wf_server ?s" by (simp add: wf_server_def Server_init_def)
  have n: "\<not> tracked 7 ?s" by (simp add: tracked_def Server_init_def)
  have c: "\<not> connected (Client_init 3)" by (simp add: Client_init_def)
  have f: "fired (Server_close (Some 5) ?s) = [Disconnect [Sock 5]]"
    by (simp add: server_eval)
  note t = C8_close_idempotent [of "Client_init 3" ?s 5]
  note t7 = C8_close_idempotent [of "Client_init 3" ?s 7]
  have "Server_close (Some 5) (Server_close (Some 5) ?s) = Server_close (Some 5) ?s"
    using t w by blast
  then have r1: "fired (Server_close (Some 5) (Server_close (Some 5) ?s)) = [Disconnect [Sock 5]]"
    using f by (simp only:)
  have r2: "Server_uclose (Some 7) ?s = ?s" using t7 n by blast
  have r3: "Client_uclose (Client_init 3) = Client_init 3" using t c by blast
  show ?thesis using w r1 n r2 c r3 by blast
qed

subsection \<open>The UDP endpoint\<close>

lemma UDPServer_write_entry:
  "udp.buffers (UDPServer_write a d u) (udp.sock u) = udp.buffers u (udp.sock u) @ [Pair a d]
   \<and> isWriting (poller (UDPServer_write a d u)) (udp.sock u)
   \<and> calls (poller (UDPServer_write a d u))
       = calls (poller u) @ (if isWriting (poller u) (udp.sock u) then []
                             else [AddWriter (udp.sock u)])
   \<and> fired (UDPServer_write a d u) = fired u
   \<and> sent (UDPServer_write a d u) = sent u"
  by (simp add: UDPServer_write_def Let_def isWriting_def addWriter_def)

lemma UDPServer_close_idle:
  "udp.buffers u (udp.sock u) = [] \<Longrightarrow>
   fired (UDPServer_close u) = fired u @ [Closed, Disconnect [Sock (udp.sock u)]]
   \<and> torn (UDPServer_close u) = torn u @ [udp.sock u]
   \<and> udp.sock u \<notin> readers (poller (UDPServer_close u))
   \<and> udp.sock u \<notin> writers (poller (UDPServer_close u))"
  by (simp add: UDPServer_close_def UDPServer_uclose_def Let_def fire_def discard_def)

lemma UDPServer_close_pending:
  "udp.buffers u (udp.sock u) \<noteq> [] \<Longrightarrow> udp.sock u \<notin> set (udp.closeq u) \<Longrightarrow>
   UDPServer_close u = (fire Closed u)\<lparr>udp.closeq := udp.closeq u @ [udp.sock u]\<rparr>"
  by (simp add: UDPServer_close_def Let_def fire_def)

lemma UDPServer_on_write_last:
  "udp.buffers u (udp.sock u) = [Pair a d] \<Longrightarrow> udp.sock u \<in> set (udp.closeq u) \<Longrightarrow>
   \<exists>u'. UDPServer_on_write (Sent (length d)) u = Inr u'
        \<and> sent u' = sent u @ [(a, d)]
        \<and> fired u' = fired u @ [Disconnect [Sock (udp.sock u)]]
        \<and> torn u' = torn u @ [udp.sock u]
        \<and> udp.buffers u' (udp.sock u) = []
        \<and> udp.sock u \<notin> writers (poller u')"
  by (simp add: UDPServer_on_write_def UDPServer_uwrite_def UDPServer_drained_def
      UDPServer_uclose_def Let_def fire_def discard_def)

lemma UDPServer_on_write_more:
  "udp.buffers u (udp.sock u) = Pair a d # e # es \<Longrightarrow>
   \<exists>u'. UDPServer_on_write (Sent (length d)) u = Inr u'
        \<and> sent u' = sent u @ [(a, d)]
        \<and> fired u' = fired u \<and> torn u' = torn u
        \<and> udp.buffers u' (udp.sock u) = e # es
        \<and> udp.sock u' = udp.sock u \<and> udp.closeq u' = udp.closeq u"
  by (simp add: UDPServer_on_write_def UDPServer_uwrite_def UDPServer_drained_def Let_def)

lemma UDPServer_pump_drains:
  "ps \<noteq> [] \<Longrightarrow> udp.buffers u (udp.sock u) = entries ps \<Longrightarrow> udp.sock u \<in> set (udp.closeq u) \<Longrightarrow>
   \<exists>u'. UDPServer_pump (whole_sends ps) u = Inr u'
        \<and> sent u' = sent u @ ps
        \<and> fired u' = fired u @ [Disconnect [Sock (udp.sock u)]]
        \<and> torn u' = torn u @ [udp.sock u]
        \<and> udp.buffers u' (udp.sock u) = []
        \<and> udp.sock u \<notin> writers (poller u')"
proof (induction ps arbitrary: u)
  case Nil
  then show ?case by simp
next
  case (Cons p ps)
  obtain a d where p: "p = (a, d)" by (cases p)
  show ?case
  proof (cases ps)
    case Nil
    have b: "udp.buffers u (udp.sock u) = [Pair a d]"
      using Cons.prems(2) p Nil by (simp add: entries_def)
    from UDPServer_on_write_last [OF b Cons.prems(3)] obtain u' where
      u': "UDPServer_on_write (Sent (length d)) u = Inr u'"
        "sent u' = sent u @ [(a, d)]"
        "fired u' = fired u @ [Disconnect [Sock (udp.sock u)]]"
        "torn u' = torn u @ [udp.sock u]"
        "udp.buffers u' (udp.sock u) = []"
        "udp.sock u \<notin> writers (poller u')"
      by blast
    have "UDPServer_pump (whole_sends (p # ps)) u = Inr u'"
      using u'(1) p Nil by (simp add: whole_sends_def)
    then show ?thesis using u' p Nil by simp
  next
    case (Cons q qs)
    obtain a2 d2 where q: "q = (a2, d2)" by (cases q)
    have b: "udp.buffers u (udp.sock u) = Pair a d # Pair a2 d2 # entries qs"
      using Cons.prems(2) p Cons q by (simp add: entries_def)
    from UDPServer_on_write_more [OF b] obtain u1 where
      u1: "UDPServer_on_write (Sent (length d)) u = Inr u1"
        "sent u1 = sent u @ [(a, d)]" "fired u1 = fired u" "torn u1 = torn u"
        "udp.buffers u1 (udp.sock u) = Pair a2 d2 # entries qs"
        "udp.sock u1 = udp.sock u" "udp.closeq u1 = udp.closeq u"
      by blast
    have ne: "ps \<noteq> []" using Cons by simp
    have b1: "udp.buffers u1 (udp.sock u1) = entries ps"
      using u1(5,6) Cons q by (simp add: entries_def)
    have q1: "udp.sock u1 \<in> set (udp.closeq u1)" using Cons.prems(3) u1(6,7) by simp
    from Cons.IH [OF ne b1 q1] obtain u' where
      u': "UDPServer_pump (whole_sends ps) u1 = Inr u'"
        "sent u' = sent u1 @ ps"
        "fired u' = fired u1 @ [Disconnect [Sock (udp.sock u1)]]"
        "torn u' = torn u1 @ [udp.sock u1]"
        "udp.buffers u' (udp.sock u1) = []"
        "udp.sock u1 \<notin> writers (poller u')"
      by blast
    have "UDPServer_pump (whole_sends (p # ps)) u = Inr u'"
      using u1(1) u'(1) p by (simp add: whole_sends_def)
    then show ?thesis using u' u1 p by simp
  qed
qed

text \<open>
  The claim C9 fails in the order of its events and for a repeated call. With a
  datagram pending, \<^verbatim>\<open>close()\<close> fires \<^verbatim>\<open>Closed\<close> at once, while the buffer still holds the
  datagram and the socket is open. A second \<^verbatim>\<open>close()\<close> then finds the socket in
  \<^verbatim>\<open>_closeq\<close>, takes the other branch and tears the socket down with the datagram
  unsent.
\<close>

theorem C9_close_pending_counterexample:
  "fired (UDPServer_close (UDPServer_write (''10.0.0.7'', 9) ''hi'' (UDPServer_init 4)))
     = [Closed]
   \<and> udp.buffers (UDPServer_close (UDPServer_write (''10.0.0.7'', 9) ''hi'' (UDPServer_init 4))) 4
       = [Pair (''10.0.0.7'', 9) ''hi'']
   \<and> torn (UDPServer_close (UDPServer_write (''10.0.0.7'', 9) ''hi'' (UDPServer_init 4))) = []
   \<and> fired (UDPServer_close (UDPServer_close
        (UDPServer_write (''10.0.0.7'', 9) ''hi'' (UDPServer_init 4))))
       = [Closed, Closed, Disconnect [Sock 4]]
   \<and> sent (UDPServer_close (UDPServer_close
        (UDPServer_write (''10.0.0.7'', 9) ''hi'' (UDPServer_init 4)))) = []
   \<and> udp.buffers (UDPServer_close (UDPServer_close
        (UDPServer_write (''10.0.0.7'', 9) ''hi'' (UDPServer_init 4)))) 4 = []"
  by (simp add: UDPServer_close_def UDPServer_uclose_def UDPServer_write_def UDPServer_init_def
      Let_def fire_def isWriting_def addWriter_def discard_def)

text \<open>
  C9, amended. \<^verbatim>\<open>UDPServer.write(address, data)\<close> appends the pair to the deque of the one
  socket, and registers the socket for writing when it is not registered yet.
  \<^verbatim>\<open>close()\<close> looks at this one socket only and fires \<^verbatim>\<open>Closed\<close> first. With nothing
  buffered it then tears the socket down and fires \<^verbatim>\<open>Disconnect(sock)\<close>. With the
  datagrams \<open>ps\<close> buffered and the socket not yet in \<^verbatim>\<open>_closeq\<close> it leaves the socket
  open; the write-ready rounds that send the datagrams whole then send exactly \<open>ps\<close>,
  in order, and the round that empties the buffer tears the socket down and fires
  \<^verbatim>\<open>Disconnect(sock)\<close>.
\<close>

theorem C9_udp_write_close:
  "udp.buffers (UDPServer_write a d u) (udp.sock u) = udp.buffers u (udp.sock u) @ [Pair a d]
   \<and> isWriting (poller (UDPServer_write a d u)) (udp.sock u)
   \<and> calls (poller (UDPServer_write a d u))
       = calls (poller u) @ (if isWriting (poller u) (udp.sock u) then []
                             else [AddWriter (udp.sock u)])
   \<and> (udp.buffers u (udp.sock u) = [] \<longrightarrow>
        fired (UDPServer_close u) = fired u @ [Closed, Disconnect [Sock (udp.sock u)]]
        \<and> torn (UDPServer_close u) = torn u @ [udp.sock u]
        \<and> udp.sock u \<notin> readers (poller (UDPServer_close u))
        \<and> udp.sock u \<notin> writers (poller (UDPServer_close u)))
   \<and> (ps \<noteq> [] \<and> udp.buffers u (udp.sock u) = entries ps
        \<and> udp.sock u \<notin> set (udp.closeq u) \<longrightarrow>
        fired (UDPServer_close u) = fired u @ [Closed]
        \<and> torn (UDPServer_close u) = torn u
        \<and> (\<exists>u'. UDPServer_pump (whole_sends ps) (UDPServer_close u) = Inr u'
              \<and> sent u' = sent u @ ps
              \<and> fired u' = fired u @ [Closed, Disconnect [Sock (udp.sock u)]]
              \<and> torn u' = torn u @ [udp.sock u]
              \<and> udp.buffers u' (udp.sock u) = []
              \<and> udp.sock u \<notin> writers (poller u')))"
proof (intro conjI impI)
  show "udp.buffers (UDPServer_write a d u) (udp.sock u)
          = udp.buffers u (udp.sock u) @ [Pair a d]"
    and "isWriting (poller (UDPServer_write a d u)) (udp.sock u)"
    and "calls (poller (UDPServer_write a d u))
       = calls (poller u) @ (if isWriting (poller u) (udp.sock u) then []
                             else [AddWriter (udp.sock u)])"
    using UDPServer_write_entry [of a d u] by blast+
next
  assume "udp.buffers u (udp.sock u) = []"
  from UDPServer_close_idle [OF this]
  show "fired (UDPServer_close u) = fired u @ [Closed, Disconnect [Sock (udp.sock u)]]"
    and "torn (UDPServer_close u) = torn u @ [udp.sock u]"
    and "udp.sock u \<notin> readers (poller (UDPServer_close u))"
    and "udp.sock u \<notin> writers (poller (UDPServer_close u))"
    by blast+
next
  assume a: "ps \<noteq> [] \<and> udp.buffers u (udp.sock u) = entries ps
        \<and> udp.sock u \<notin> set (udp.closeq u)"
  then have ne: "ps \<noteq> []" and b: "udp.buffers u (udp.sock u) = entries ps"
    and q: "udp.sock u \<notin> set (udp.closeq u)" by blast+
  have bn: "udp.buffers u (udp.sock u) \<noteq> []" using ne b by (simp add: entries_def)
  let ?v = "(fire Closed u)\<lparr>udp.closeq := udp.closeq u @ [udp.sock u]\<rparr>"
  have cl: "UDPServer_close u = ?v" using bn q by (rule UDPServer_close_pending)
  show "fired (UDPServer_close u) = fired u @ [Closed]"
    and "torn (UDPServer_close u) = torn u"
    unfolding cl by (simp_all add: fire_def)
  have v1: "udp.buffers ?v (udp.sock ?v) = entries ps" using b by (simp add: fire_def)
  have v2: "udp.sock ?v \<in> set (udp.closeq ?v)" by (simp add: fire_def)
  from UDPServer_pump_drains [OF ne v1 v2] obtain u' where
    u': "UDPServer_pump (whole_sends ps) ?v = Inr u'"
      "sent u' = sent ?v @ ps"
      "fired u' = fired ?v @ [Disconnect [Sock (udp.sock ?v)]]"
      "torn u' = torn ?v @ [udp.sock ?v]"
      "udp.buffers u' (udp.sock ?v) = []"
      "udp.sock ?v \<notin> writers (poller u')"
    by blast
  have "sent u' = sent u @ ps"
    and "fired u' = fired u @ [Closed, Disconnect [Sock (udp.sock u)]]"
    and "torn u' = torn u @ [udp.sock u]"
    and "udp.buffers u' (udp.sock u) = []"
    and "udp.sock u \<notin> writers (poller u')"
    using u'(2-6) by (simp_all add: fire_def)
  with u'(1) show "\<exists>u'. UDPServer_pump (whole_sends ps) (UDPServer_close u) = Inr u'
              \<and> sent u' = sent u @ ps
              \<and> fired u' = fired u @ [Closed, Disconnect [Sock (udp.sock u)]]
              \<and> torn u' = torn u @ [udp.sock u]
              \<and> udp.buffers u' (udp.sock u) = []
              \<and> udp.sock u \<notin> writers (poller u')"
    unfolding cl by blast
qed

text \<open>
  A fresh endpoint on socket 4 with the datagram \<open>''hi''\<close> for 10.0.0.7:9 written, then
  closed: the datagram is sent, then \<^verbatim>\<open>Disconnect\<close> follows \<^verbatim>\<open>Closed\<close>.
\<close>

theorem C9_udp_write_close_witness:
  "[((''10.0.0.7'', 9), ''hi'')] \<noteq> []
   \<and> udp.buffers (UDPServer_write (''10.0.0.7'', 9) ''hi'' (UDPServer_init 4)) 4
       = entries [((''10.0.0.7'', 9), ''hi'')]
   \<and> 4 \<notin> set (udp.closeq (UDPServer_write (''10.0.0.7'', 9) ''hi'' (UDPServer_init 4)))
   \<and> fired (UDPServer_close (UDPServer_write (''10.0.0.7'', 9) ''hi'' (UDPServer_init 4)))
       = [Closed]
   \<and> fired (state_of (UDPServer_pump [Sent 2]
        (UDPServer_close (UDPServer_write (''10.0.0.7'', 9) ''hi'' (UDPServer_init 4)))))
       = [Closed, Disconnect [Sock 4]]
   \<and> sent (state_of (UDPServer_pump [Sent 2]
        (UDPServer_close (UDPServer_write (''10.0.0.7'', 9) ''hi'' (UDPServer_init 4)))))
       = [((''10.0.0.7'', 9), ''hi'')]"
proof -
  let ?ps = "[((''10.0.0.7'', 9::nat), ''hi'')]"
  let ?u = "UDPServer_write (''10.0.0.7'', 9) ''hi'' (UDPServer_init 4)"
  have s: "udp.sock ?u = 4" and f: "fired ?u = []" and st: "sent ?u = []"
    and q: "udp.closeq ?u = []"
    by (simp_all add: UDPServer_write_def UDPServer_init_def Let_def)
  have h1: "?ps \<noteq> []" by simp
  have h2: "udp.buffers ?u (udp.sock ?u) = entries ?ps"
    by (simp add: UDPServer_write_def UDPServer_init_def Let_def entries_def)
  have h3: "udp.sock ?u \<notin> set (udp.closeq ?u)" unfolding q by simp
  have ws: "whole_sends ?ps = [Sent 2]" by (simp add: whole_sends_def)
  note t = C9_udp_write_close [of "(''10.0.0.7'', 9)" "''hi''" ?u ?ps]
  have "fired (UDPServer_close ?u) = fired ?u @ [Closed]" using t h1 h2 h3 by blast
  then have r1: "fired (UDPServer_close ?u) = [Closed]" unfolding f by simp
  obtain u' where u': "UDPServer_pump (whole_sends ?ps) (UDPServer_close ?u) = Inr u'"
    "sent u' = sent ?u @ ?ps"
    "fired u' = fired ?u @ [Closed, Disconnect [Sock (udp.sock ?u)]]"
    using t h1 h2 h3 by blast
  have so: "state_of (UDPServer_pump [Sent 2] (UDPServer_close ?u)) = u'"
    using u'(1) unfolding ws by (simp add: state_of_def)
  have r2: "fired (state_of (UDPServer_pump [Sent 2] (UDPServer_close ?u)))
              = [Closed, Disconnect [Sock 4]]"
    unfolding so u'(3) f s by simp
  have r3: "sent (state_of (UDPServer_pump [Sent 2] (UDPServer_close ?u))) = ?ps"
    unfolding so u'(2) st by simp
  show ?thesis using h1 h2 h3 r1 r2 r3 unfolding s by blast
qed

end
